theory Spec2Isabelle
  imports Complex_Main
begin

section \<open>Data model of the chess coach component\<close>

text \<open>
  The component \<open>ChessCoachPro\<close> keeps its state in React state cells and defines its
  functions as closures over them. A \<open>set...\<close> call takes effect at the next render
  only, so within one call every function reads the cells as they were when the call
  began. The embedding passes these cells to a function as a record \<open>session\<close> (its
  first argument, for the functions that read one), every \<open>Math.random()\<close> draw as an
  explicit argument, and models JavaScript numbers that hold evaluations and scores as
  \<open>real\<close> (IEEE rounding is idealised away) and numbers that hold board coordinates,
  counts and seconds as \<open>int\<close>. Parameters that a function never reads (\<open>lastMove\<close>,
  \<open>classification\<close>, \<open>endReason\<close>) are left out. Cells that only drive the display
  (the active tab, open dialogs, the user profile) are not part of the record.
\<close>

datatype color = White | Black

datatype pieceType = Pawn | Knight | Bishop | Rook | Queen | King

record piece =
  ptype :: pieceType
  pcolor :: color
  moved :: bool

type_synonym board = "piece option list list"

datatype error = TypeError

datatype tier = Brilliant | Best | Good | Inaccuracy | Mistake | Blunder

record classification =
  ctype :: tier
  symbol :: string
  description :: string
  feedback :: "string option list"

record genMove =
  gfrom :: "int \<times> int"
  gto :: "int \<times> int"
  gnotation :: string

record moveData =
  mpiece :: pieceType
  mfrom :: "int \<times> int"
  mto :: "int \<times> int"
  captured :: "piece option"
  mnotation :: string
  player :: color
  timestamp :: int
  mclassification :: "classification option"
  evaluation :: "real option"

datatype gameMode = AI | Local

datatype difficulty = Beginner | Intermediate | Advanced

record timeControl =
  tc_white :: int
  tc_black :: int

record session =
  board :: board
  selected :: "(int \<times> int) option"
  currentPlayer :: color
  moves :: "moveData list"
  gameOver :: bool
  gameMode :: gameMode
  aiDifficulty :: difficulty
  timeControl :: timeControl
  isTimerActive :: bool
  engineEvaluation :: real
  bestMove :: "genMove option"

subsection \<open>Array access as JavaScript performs it\<close>

text \<open>
  \<open>xs[i]\<close> outside the array is \<open>undefined\<close>; \<open>None\<close> stands for that value.
\<close>

definition jsIndex :: "'a list \<Rightarrow> int \<Rightarrow> 'a option" where
  "jsIndex xs i = (if 0 \<le> i \<and> i < int (length xs) then Some (xs ! nat i) else None)"

text \<open>
  \<open>board[r][c]\<close>: a row outside the array is \<open>undefined\<close> and indexing it throws a
  \<open>TypeError\<close>; a column outside the row gives \<open>undefined\<close>, which every reader of a
  square treats like \<open>null\<close> (an empty square).
\<close>

definition getSq :: "board \<Rightarrow> int \<Rightarrow> int \<Rightarrow> error + piece option" where
  "getSq b r c =
     (case jsIndex b r of
        None \<Rightarrow> Inl TypeError
      | Some row \<Rightarrow> (case jsIndex row c of None \<Rightarrow> Inr None | Some sq \<Rightarrow> Inr sq))"

subsection \<open>Initial position\<close>

definition setup0 :: "pieceType list" where
  "setup0 = [Rook, Knight, Bishop, Queen, King, Bishop, Knight, Rook]"

definition setup1 :: "pieceType list" where
  "setup1 = [Pawn, Pawn, Pawn, Pawn, Pawn, Pawn, Pawn, Pawn]"

definition mkRow :: "color \<Rightarrow> pieceType list \<Rightarrow> piece option list" where
  "mkRow col ts = map (\<lambda>t. Some \<lparr>ptype = t, pcolor = col, moved = False\<rparr>) ts"

definition initializeBoard :: board where
  "initializeBoard =
     [mkRow Black setup0, mkRow Black setup1,
      replicate 8 None, replicate 8 None, replicate 8 None, replicate 8 None,
      mkRow White setup1, mkRow White setup0]"

section \<open>Position evaluator\<close>

definition pieceValues :: "pieceType \<Rightarrow> real" where
  "pieceValues t =
     (case t of Pawn \<Rightarrow> 1 | Knight \<Rightarrow> 3 | Bishop \<Rightarrow> 3 | Rook \<Rightarrow> 5 | Queen \<Rightarrow> 9 | King \<Rightarrow> 0)"

definition materialStep :: "real \<Rightarrow> piece option \<Rightarrow> real" where
  "materialStep balance sq =
     (case sq of
        None \<Rightarrow> balance
      | Some p \<Rightarrow> balance + (if pcolor p = White then pieceValues (ptype p)
                              else - pieceValues (ptype p)))"

definition calculateMaterialBalance :: "board \<Rightarrow> real" where
  "calculateMaterialBalance b = foldl (\<lambda>balance row. foldl materialStep balance row) 0 b"

definition centerSquares :: "(int \<times> int) list" where
  "centerSquares = [(3,3), (3,4), (4,3), (4,4)]"

text \<open>One pass of a \<open>forEach\<close> over fixed squares; a thrown error ends the pass.\<close>

fun forSquares :: "('a \<Rightarrow> piece option \<Rightarrow> 'a) \<Rightarrow> board \<Rightarrow> (int \<times> int) list \<Rightarrow> 'a
    \<Rightarrow> error + 'a" where
  "forSquares f b [] score = Inr score"
| "forSquares f b ((r, c) # rest) score =
     (case getSq b r c of
        Inl e \<Rightarrow> Inl e
      | Inr sq \<Rightarrow> forSquares f b rest (f score sq))"

definition centerStep :: "real \<Rightarrow> piece option \<Rightarrow> real" where
  "centerStep score sq =
     (case sq of None \<Rightarrow> score
      | Some p \<Rightarrow> score + (if pcolor p = White then 0.3 else - 0.3))"

definition knightStep :: "real \<Rightarrow> real \<Rightarrow> piece option \<Rightarrow> real" where
  "knightStep delta score sq =
     (case sq of None \<Rightarrow> score
      | Some p \<Rightarrow> if ptype p = Knight \<and> \<not> moved p then score + delta else score)"

definition evaluatePosition :: "board \<Rightarrow> error + real" where
  "evaluatePosition b =
     (case forSquares centerStep b centerSquares 0 of
        Inl e \<Rightarrow> Inl e
      | Inr s1 \<Rightarrow>
          (case forSquares (knightStep (- 0.2)) b [(7,1), (7,6)] s1 of
             Inl e \<Rightarrow> Inl e
           | Inr s2 \<Rightarrow> forSquares (knightStep 0.2) b [(0,1), (0,6)] s2))"

section \<open>Move classifier\<close>

definition tacticalFeedbackOptions :: "string list" where
  "tacticalFeedbackOptions =
     [''This move allows your opponent to gain material.'',
      ''Your piece is now vulnerable to capture.'',
      ''This weakens your pawn structure.'',
      ''This move reduces your piece activity.'',
      ''Consider piece safety before moving.'']"

definition blunderFeedbackOptions :: "string list" where
  "blunderFeedbackOptions =
     [''This move hangs a piece - always check if your pieces are protected!'',
      ''You missed a tactical threat. Look for checks, captures, and attacks.'',
      ''This severely weakens your king safety.'',
      ''You are giving away material for nothing in return.'',
      ''Always calculate forcing moves before committing.'']"

text \<open>\<open>rnd\<close> is the value \<open>Math.random()\<close> returned, a number in \<open>[0, 1)\<close>.\<close>

definition generateTacticalFeedback :: "moveData \<Rightarrow> real \<Rightarrow> string option" where
  "generateTacticalFeedback md rnd =
     jsIndex tacticalFeedbackOptions \<lfloor>rnd * real (length tacticalFeedbackOptions)\<rfloor>"

definition generateBlunderFeedback :: "moveData \<Rightarrow> real \<Rightarrow> string option" where
  "generateBlunderFeedback md rnd =
     jsIndex blunderFeedbackOptions \<lfloor>rnd * real (length blunderFeedbackOptions)\<rfloor>"

definition moveDiff :: "session \<Rightarrow> real \<Rightarrow> real \<Rightarrow> real" where
  "moveDiff s previousEval newEval =
     (if currentPlayer s = White then previousEval - newEval else newEval - previousEval)"

definition classifyMove :: "session \<Rightarrow> real \<Rightarrow> real \<Rightarrow> moveData \<Rightarrow> real \<Rightarrow> classification" where
  "classifyMove s previousEval newEval md rnd =
     (let diff = moveDiff s previousEval newEval in
      if diff < - 2 then
        \<lparr>ctype = Brilliant, symbol = ''!!'', description = ''Brilliant move!'',
         feedback = [Some ''Outstanding! This move significantly improves your position.'',
                     Some ''This is exactly what the engine recommends.'']\<rparr>
      else if diff < - 0.5 then
        \<lparr>ctype = Best, symbol = ''!'', description = ''Excellent move'',
         feedback = [Some ''Great choice! This maintains your advantage.'']\<rparr>
      else if diff > 0.5 \<and> diff < 1.5 then
        \<lparr>ctype = Inaccuracy, symbol = ''?'', description = ''Inaccuracy'',
         feedback = [Some ''This move is okay but not optimal.'',
                     Some (''Consider '' @
                           (case bestMove s of Some bm \<Rightarrow> gnotation bm
                            | None \<Rightarrow> ''developing pieces'') @ '' instead.'')]\<rparr>
      else if diff > 1.5 \<and> diff < 3 then
        \<lparr>ctype = Mistake, symbol = ''??'', description = ''Mistake'',
         feedback = [Some ''This significantly weakens your position.'',
                     generateTacticalFeedback md rnd]\<rparr>
      else if diff > 3 then
        \<lparr>ctype = Blunder, symbol = ''???'', description = ''Blunder!'',
         feedback = [Some ''Critical error! This move loses material or position.'',
                     generateBlunderFeedback md rnd]\<rparr>
      else
        \<lparr>ctype = Good, symbol = [], description = ''Solid move'', feedback = []\<rparr>)"

section \<open>Outcomes of calls that may throw or loop\<close>

text \<open>
  A call that returns \<open>v\<close> is \<open>Some (Inr v)\<close>, one that throws is \<open>Some (Inl e)\<close>, and
  one that never returns is \<open>None\<close>.
\<close>

type_synonym 'a res = "(error + 'a) option"

definition ret :: "'a \<Rightarrow> 'a res" where
  "ret v = Some (Inr v)"

definition bindR :: "'a res \<Rightarrow> ('a \<Rightarrow> 'b res) \<Rightarrow> 'b res" where
  "bindR m f = (case m of None \<Rightarrow> None | Some (Inl e) \<Rightarrow> Some (Inl e) | Some (Inr v) \<Rightarrow> f v)"

definition liftE :: "error + 'a \<Rightarrow> 'a res" where
  "liftE x = Some x"

text \<open>\<open>xs.forEach((x, i) => body)\<close>, the body updating an accumulator.\<close>

fun forEachIdx :: "(int \<Rightarrow> 'x \<Rightarrow> 'a \<Rightarrow> 'a res) \<Rightarrow> int \<Rightarrow> 'x list \<Rightarrow> 'a \<Rightarrow> 'a res" where
  "forEachIdx f i [] acc = ret acc"
| "forEachIdx f i (x # xs) acc = bindR (f i x acc) (\<lambda>acc'. forEachIdx f (i + 1) xs acc')"

text \<open>\<open>for (let i = lo; i < hi; i++) body\<close>, the body updating an accumulator.\<close>

function forUpto :: "(int \<Rightarrow> 'a \<Rightarrow> 'a res) \<Rightarrow> int \<Rightarrow> int \<Rightarrow> 'a \<Rightarrow> 'a res" where
  "forUpto f i hi acc =
     (if i < hi then bindR (f i acc) (\<lambda>acc'. forUpto f (i + 1) hi acc') else ret acc)"
  by pat_completeness auto
termination
  by (relation "measure (\<lambda>(f, i, hi, acc). nat (hi - i))") auto

declare forUpto.simps [simp del]

section \<open>Legality checker\<close>

partial_function (option) isPathClear_loop ::
  "board \<Rightarrow> int \<Rightarrow> int \<Rightarrow> int \<Rightarrow> int \<Rightarrow> int \<Rightarrow> int \<Rightarrow> (error + bool) option" where
  "isPathClear_loop b rowStep colStep toRow toCol currentRow currentCol =
     (if currentRow \<noteq> toRow \<or> currentCol \<noteq> toCol then
        (case getSq b currentRow currentCol of
           Inl e \<Rightarrow> Some (Inl e)
         | Inr (Some p) \<Rightarrow> Some (Inr False)
         | Inr None \<Rightarrow>
             isPathClear_loop b rowStep colStep toRow toCol
               (currentRow + rowStep) (currentCol + colStep))
      else Some (Inr True))"

declare isPathClear_loop.simps [code]

definition stepToward :: "int \<Rightarrow> int \<Rightarrow> int" where
  "stepToward a b = (if b > a then 1 else if b < a then - 1 else 0)"

definition isPathClear :: "session \<Rightarrow> int \<Rightarrow> int \<Rightarrow> int \<Rightarrow> int \<Rightarrow> bool res" where
  "isPathClear s fromRow fromCol toRow toCol =
     (let rowStep = stepToward fromRow toRow;
          colStep = stepToward fromCol toCol
      in isPathClear_loop (board s) rowStep colStep toRow toCol
           (fromRow + rowStep) (fromCol + colStep))"

definition isValidMove :: "session \<Rightarrow> int \<Rightarrow> int \<Rightarrow> int \<Rightarrow> int \<Rightarrow> piece \<Rightarrow> bool res" where
  "isValidMove s fromRow fromCol toRow toCol piece =
     (if toRow < 0 \<or> toRow > 7 \<or> toCol < 0 \<or> toCol > 7 then ret False
      else if fromRow = toRow \<and> fromCol = toCol then ret False
      else bindR (liftE (getSq (board s) toRow toCol)) (\<lambda>target.
        if (case target of None \<Rightarrow> False | Some t \<Rightarrow> pcolor t = pcolor piece) then ret False
        else
          let rowDiff = \<bar>toRow - fromRow\<bar>; colDiff = \<bar>toCol - fromCol\<bar> in
          case ptype piece of
            Pawn \<Rightarrow>
              (let direction = (if pcolor piece = White then - 1 else 1);
                   startRow = (if pcolor piece = White then 6 else 1);
                   capture = ret (\<bar>toCol - fromCol\<bar> = 1 \<and> toRow = fromRow + direction
                                  \<and> target \<noteq> None)
               in if toCol = fromCol \<and> target = None then
                    if toRow = fromRow + direction then ret True
                    else if fromRow = startRow \<and> toRow = fromRow + 2 * direction then
                      bindR (liftE (getSq (board s) (fromRow + direction) fromCol)) (\<lambda>mid.
                        if mid = None then ret True else capture)
                    else capture
                  else capture)
          | Knight \<Rightarrow> ret ((rowDiff = 2 \<and> colDiff = 1) \<or> (rowDiff = 1 \<and> colDiff = 2))
          | Bishop \<Rightarrow>
              if rowDiff \<noteq> colDiff then ret False
              else isPathClear s fromRow fromCol toRow toCol
          | Rook \<Rightarrow>
              if fromRow \<noteq> toRow \<and> fromCol \<noteq> toCol then ret False
              else isPathClear s fromRow fromCol toRow toCol
          | Queen \<Rightarrow>
              if fromRow \<noteq> toRow \<and> fromCol \<noteq> toCol \<and> rowDiff \<noteq> colDiff then ret False
              else isPathClear s fromRow fromCol toRow toCol
          | King \<Rightarrow> ret (rowDiff \<le> 1 \<and> colDiff \<le> 1)))"

section \<open>Move generator\<close>

fun showNat :: "nat \<Rightarrow> string" where
  "showNat n =
     (if n < 10 then [''0123456789'' ! n]
      else showNat (n div 10) @ [''0123456789'' ! (n mod 10)])"

declare showNat.simps [simp del]

definition showInt :: "int \<Rightarrow> string" where
  "showInt i = (if i < 0 then CHR ''-'' # showNat (nat (- i)) else showNat (nat i))"

definition fileLetter :: "int \<Rightarrow> string" where
  "fileLetter c = (case jsIndex ''abcdefgh'' c of None \<Rightarrow> ''undefined'' | Some ch \<Rightarrow> [ch])"

definition pieceLetter :: "pieceType \<Rightarrow> string" where
  "pieceLetter t =
     (case t of Pawn \<Rightarrow> [] | Knight \<Rightarrow> ''K'' | Bishop \<Rightarrow> ''B'' | Rook \<Rightarrow> ''R''
      | Queen \<Rightarrow> ''Q'' | King \<Rightarrow> ''K'')"

definition toAlgebraic :: "int \<Rightarrow> int \<Rightarrow> int \<Rightarrow> int \<Rightarrow> piece \<Rightarrow> string" where
  "toAlgebraic fromRow fromCol toRow toCol piece =
     pieceLetter (ptype piece) @ fileLetter fromCol @ showInt (8 - fromRow) @ ''-''
       @ fileLetter toCol @ showInt (8 - toRow)"

definition pushIfValid :: "session \<Rightarrow> int \<Rightarrow> int \<Rightarrow> piece \<Rightarrow> int \<Rightarrow> int \<Rightarrow> genMove list
    \<Rightarrow> genMove list res" where
  "pushIfValid s r c piece tr tc acc =
     bindR (isValidMove s r c tr tc piece) (\<lambda>ok.
       ret (if ok
            then acc @ [\<lparr>gfrom = (r, c), gto = (tr, tc),
                         gnotation = toAlgebraic r c tr tc piece\<rparr>]
            else acc))"

text \<open>
  The pieces are taken from the argument \<open>brd\<close>; \<open>isValidMove\<close> consults the board of the
  session.
\<close>

definition generateAllPossibleMoves :: "session \<Rightarrow> board \<Rightarrow> color \<Rightarrow> genMove list res" where
  "generateAllPossibleMoves s brd col =
     forEachIdx (\<lambda>r row acc.
       forEachIdx (\<lambda>c sq acc.
         case sq of
           None \<Rightarrow> ret acc
         | Some piece \<Rightarrow>
             if pcolor piece = col then
               forUpto (\<lambda>tr acc. forUpto (\<lambda>tc acc. pushIfValid s r c piece tr tc acc) 0 8 acc)
                 0 8 acc
             else ret acc) 0 row acc) 0 brd []"

section \<open>Applying a move\<close>

text \<open>
  \<open>row[c] = v\<close>: inside the row the element is replaced; beyond its end JavaScript extends
  the array, the skipped positions reading as \<open>undefined\<close>; a negative \<open>c\<close> adds a property
  and leaves the elements as they are.
\<close>

definition setSq :: "piece option list \<Rightarrow> int \<Rightarrow> piece option \<Rightarrow> piece option list" where
  "setSq row c v =
     (if c < 0 then row
      else if c < int (length row) then row[nat c := v]
      else row @ replicate (nat c - length row) None @ [v])"

text \<open>
  The board that \<open>makeMove\<close> builds and hands to \<open>setBoard\<close>: a copy of the session's
  board, the piece of the source square marked as moved and written to the destination,
  the source cleared. Reading a row that does not exist, or marking a piece that is not
  there, throws.
\<close>

definition makeMove_newBoard :: "session \<Rightarrow> int \<Rightarrow> int \<Rightarrow> int \<Rightarrow> int \<Rightarrow> error + board" where
  "makeMove_newBoard s fromRow fromCol toRow toCol =
     (let newBoard = map (map (\<lambda>p. p)) (board s) in
      case getSq newBoard fromRow fromCol of
        Inl e \<Rightarrow> Inl e
      | Inr src \<Rightarrow>
          (case getSq newBoard toRow toCol of
             Inl e \<Rightarrow> Inl e
           | Inr capt \<Rightarrow>
               (case src of
                  None \<Rightarrow> Inl TypeError
                | Some p \<Rightarrow>
                    let piece = p\<lparr>moved := True\<rparr>;
                        b1 = newBoard[nat toRow := setSq (newBoard ! nat toRow) toCol (Some piece)];
                        b2 = b1[nat fromRow := setSq (b1 ! nat fromRow) fromCol None]
                    in Inr b2)))"

section \<open>Engine analysis\<close>

text \<open>
  Returns the evaluation together with the session as the queued \<open>setEngineEvaluation\<close>
  and \<open>setBestMove\<close> leave it. \<open>rnd\<close> is the draw of \<open>Math.random()\<close>.
\<close>

definition simulateStockfishAnalysis :: "session \<Rightarrow> board \<Rightarrow> real \<Rightarrow> (real \<times> session) res" where
  "simulateStockfishAnalysis s brd rnd =
     (let materialBalance = calculateMaterialBalance brd in
      bindR (liftE (evaluatePosition brd)) (\<lambda>positionScore.
        let evaluation = (materialBalance + positionScore) / 10 in
        bindR (generateAllPossibleMoves s brd (currentPlayer s)) (\<lambda>allMoves.
          ret (evaluation,
               if length allMoves > 0
               then s\<lparr>engineEvaluation := evaluation,
                      bestMove := jsIndex allMoves \<lfloor>rnd * real (min 3 (length allMoves))\<rfloor>\<rparr>
               else s\<lparr>engineEvaluation := evaluation\<rparr>))))"

section \<open>Threat and hint engine\<close>

definition countUndevelopedPieces :: "board \<Rightarrow> color \<Rightarrow> error + int" where
  "countUndevelopedPieces b col =
     (let startRow = (if col = White then 7 else 0) in
      forSquares (\<lambda>count sq. case sq of None \<Rightarrow> count
                              | Some p \<Rightarrow> if \<not> moved p then count + 1 else count)
        b [(startRow, 1), (startRow, 2), (startRow, 5), (startRow, 6)] 0)"

record threat =
  tpiece :: piece
  tposition :: "int \<times> int"

definition pushIfAttacked :: "session \<Rightarrow> board \<Rightarrow> color \<Rightarrow> int \<Rightarrow> int \<Rightarrow> piece \<Rightarrow> int \<Rightarrow> int
    \<Rightarrow> threat list \<Rightarrow> threat list res" where
  "pushIfAttacked s brd col r c piece ar ac acc =
     bindR (liftE (getSq brd ar ac)) (\<lambda>att.
       case att of
         None \<Rightarrow> ret acc
       | Some attacker \<Rightarrow>
           if pcolor attacker \<noteq> col then
             bindR (isValidMove s ar ac r c attacker) (\<lambda>ok.
               ret (if ok then acc @ [\<lparr>tpiece = piece, tposition = (r, c)\<rparr>] else acc))
           else ret acc)"

definition detectThreats :: "session \<Rightarrow> board \<Rightarrow> color \<Rightarrow> threat list res" where
  "detectThreats s brd col =
     forEachIdx (\<lambda>r row acc.
       forEachIdx (\<lambda>c sq acc.
         case sq of
           None \<Rightarrow> ret acc
         | Some piece \<Rightarrow>
             if pcolor piece = col then
               forUpto (\<lambda>ar acc.
                 forUpto (\<lambda>ac acc. pushIfAttacked s brd col r c piece ar ac acc) 0 8 acc)
                 0 8 acc
             else ret acc) 0 row acc) 0 brd []"

definition evaluateCenterControl :: "session \<Rightarrow> board \<Rightarrow> error + int" where
  "evaluateCenterControl s brd =
     forSquares (\<lambda>score sq. case sq of None \<Rightarrow> score
                             | Some p \<Rightarrow> score + (if pcolor p = currentPlayer s then 1 else - 1))
       brd [(3,3), (3,4), (4,3), (4,4)] 0"

datatype hintType = Opening | Tactical | Positional

record hint =
  htype :: hintType
  message :: string

definition openingHint :: "session \<Rightarrow> board \<Rightarrow> hint list res" where
  "openingHint s brd =
     (if int (length (moves s)) < 10 then
        bindR (liftE (countUndevelopedPieces brd (currentPlayer s))) (\<lambda>undevelopedPieces.
          ret (if undevelopedPieces > 2
               then [\<lparr>htype = Opening, message =
                 ''Focus on developing your knights and bishops before moving your queen.''\<rparr>]
               else []))
      else ret [])"

definition tacticalHint :: "threat list \<Rightarrow> hint list" where
  "tacticalHint threats =
     (if length threats > 0
      then [\<lparr>htype = Tactical, message = ''Alert: '' @ showInt (int (length threats))
               @ '' pieces under attack! Defend or counter-attack.''\<rparr>]
      else [])"

definition positionalHint :: "int \<Rightarrow> hint list" where
  "positionalHint centerControl =
     (if centerControl < - 1
      then [\<lparr>htype = Positional, message =
        ''Your opponent controls the center. Consider challenging with pawns or pieces.''\<rparr>]
      else [])"

text \<open>The list handed to \<open>setLiveHints\<close>.\<close>

definition updateLiveHints :: "session \<Rightarrow> board \<Rightarrow> hint list res" where
  "updateLiveHints s brd =
     bindR (openingHint s brd) (\<lambda>h1.
       bindR (detectThreats s brd (currentPlayer s)) (\<lambda>threats.
         bindR (liftE (evaluateCenterControl s brd)) (\<lambda>centerControl.
           ret (take 3 (h1 @ tacticalHint threats @ positionalHint centerControl)))))"

section \<open>Session aggregator\<close>

text \<open>
  The result of a JavaScript division: a number, an infinity, or \<open>NaN\<close> when zero is
  divided by zero.
\<close>

datatype jsnum = Num real | PosInfinity | NegInfinity | NaN

definition jsDiv :: "real \<Rightarrow> real \<Rightarrow> jsnum" where
  "jsDiv a b =
     (if b \<noteq> 0 then Num (a / b)
      else if a = 0 then NaN else if a > 0 then PosInfinity else NegInfinity)"

definition jsTimes :: "jsnum \<Rightarrow> real \<Rightarrow> jsnum" where
  "jsTimes x k = (case x of Num a \<Rightarrow> Num (a * k) | other \<Rightarrow>
     (if k > 0 then other else if k = 0 then NaN
      else (case other of PosInfinity \<Rightarrow> NegInfinity | NegInfinity \<Rightarrow> PosInfinity
            | y \<Rightarrow> y)))"

text \<open>
  \<open>x.toFixed(1)\<close> read back as a number (the comparison \<open>accuracy > 80\<close> converts the
  string): the magnitude is rounded to the nearest multiple of one tenth, upwards on a
  tie, and the sign is kept.
\<close>

definition toFixed1 :: "jsnum \<Rightarrow> jsnum" where
  "toFixed1 x =
     (case x of
        Num a \<Rightarrow>
          if a < 0 then Num (- (real_of_int \<lfloor>- a * 10 + 1 / 2\<rfloor> / 10))
          else Num (real_of_int \<lfloor>a * 10 + 1 / 2\<rfloor> / 10)
      | other \<Rightarrow> other)"

definition jsGreater :: "jsnum \<Rightarrow> real \<Rightarrow> bool" where
  "jsGreater x k =
     (case x of Num a \<Rightarrow> a > k | PosInfinity \<Rightarrow> True | NegInfinity \<Rightarrow> False | NaN \<Rightarrow> False)"

definition countTier :: "tier \<Rightarrow> moveData list \<Rightarrow> int" where
  "countTier t ms =
     int (length (filter (\<lambda>m. case mclassification m of None \<Rightarrow> False
                                | Some cl \<Rightarrow> ctype cl = t) ms))"

definition accuracy :: "session \<Rightarrow> jsnum" where
  "accuracy s =
     (let totalMoves = int (length (moves s));
          blunderCount = countTier Blunder (moves s);
          mistakeCount = countTier Mistake (moves s)
      in toFixed1 (jsTimes (jsDiv (real_of_int (totalMoves - blunderCount - mistakeCount))
                                  (real_of_int totalMoves)) 100))"

record weakness =
  w_area :: string
  w_description :: string
  w_severity :: string

record strength =
  s_area :: string
  s_description :: string

record recommendation =
  r_title :: string
  r_description :: string
  r_priority :: string

record performanceStats =
  tacticalAccuracy :: real
  positionalAwareness :: real
  endgameSkill :: real
  openingKnowledge :: real
  timeManagement :: real

record analysis =
  weaknesses :: "weakness list"
  strengths :: "strength list"
  recommendations :: "recommendation list"
  performance :: performanceStats

text \<open>
  \<open>rndPos\<close> and \<open>rndEnd\<close> are the draws of \<open>Math.random()\<close> for the positional and the
  endgame score (the second is drawn only after more than 40 moves).
\<close>

definition generatePostGameAnalysis :: "session \<Rightarrow> real \<Rightarrow> real \<Rightarrow> error + analysis" where
  "generatePostGameAnalysis s rndPos rndEnd =
     (let brilliantCount = countTier Brilliant (moves s);
          blunderCount = countTier Blunder (moves s);
          tactical = (blunderCount > 2);
          strengthsNow =
            (if brilliantCount > 1
             then [\<lparr>s_area = ''Strategic Vision'',
                     s_description = ''Excellent move selection with multiple brilliant moves.''\<rparr>]
             else [])
            @ (if jsGreater (accuracy s) 80
               then [\<lparr>s_area = ''Consistency'',
                       s_description = ''High accuracy throughout the game.''\<rparr>]
               else [])
      in
      case (if int (length (moves s)) > 10
            then countUndevelopedPieces (board s) White else Inr 0) of
        Inl e \<Rightarrow> Inl e
      | Inr undev1 \<Rightarrow>
          let opening = (int (length (moves s)) > 10 \<and> undev1 > 1) in
          (case countUndevelopedPieces (board s) White of
             Inl e \<Rightarrow> Inl e
           | Inr undev \<Rightarrow>
               Inr \<lparr>weaknesses =
                      (if tactical
                       then [\<lparr>w_area = ''Tactical Awareness'',
                               w_description = showInt blunderCount
                                 @ '' blunders detected. Missing tactical opportunities.'',
                               w_severity = ''high''\<rparr>]
                       else [])
                      @ (if opening
                         then [\<lparr>w_area = ''Opening Development'',
                                 w_description = ''Slow piece development in the opening phase.'',
                                 w_severity = ''medium''\<rparr>]
                         else []),
                    strengths = strengthsNow,
                    recommendations =
                      (if tactical
                       then [\<lparr>r_title = ''Tactical Training'',
                               r_description =
                                 ''Practice 20 tactical puzzles focusing on forks, pins, and skewers.'',
                               r_priority = ''high''\<rparr>]
                       else [])
                      @ (if opening
                         then [\<lparr>r_title = ''Opening Principles'',
                                 r_description =
                                   ''Study the 3 opening principles: Control center, develop pieces, castle early.'',
                                 r_priority = ''medium''\<rparr>]
                         else []),
                    performance =
                      \<lparr>tacticalAccuracy = real_of_int (max 0 (100 - blunderCount * 20)),
                       positionalAwareness = rndPos * 30 + 60,
                       endgameSkill = (if int (length (moves s)) > 40 then rndEnd * 30 + 50 else 0),
                       openingKnowledge = real_of_int (100 - undev * 15),
                       timeManagement = real_of_int (tc_white (timeControl s)) / 600 * 100\<rparr>\<rparr>))"

section \<open>The session at start-up\<close>

text \<open>The initial values of the state cells, as the \<open>useState\<close> calls give them.\<close>

definition initialSession :: session where
  "initialSession =
     \<lparr>board = initializeBoard, selected = None, currentPlayer = White, moves = [],
      gameOver = False, gameMode = AI, aiDifficulty = Intermediate,
      timeControl = \<lparr>tc_white = 600, tc_black = 600\<rparr>, isTimerActive = False,
      engineEvaluation = 0, bestMove = None\<rparr>"

text \<open>The record \<open>makeMove\<close> builds for the white pawn move from (6,4) to (4,4).\<close>

definition e2e4 :: moveData where
  "e2e4 =
     \<lparr>mpiece = Pawn, mfrom = (6, 4), mto = (4, 4), captured = None,
      mnotation = ''e2-e4'', player = White, timestamp = 0,
      mclassification = None, evaluation = None\<rparr>"

text \<open>
  The board reached from \<open>b\<close> by applying the listed moves in turn, each one through
  \<open>makeMove\<close> in a session whose board is the position before it.
\<close>

fun boardAfter :: "board \<Rightarrow> (int \<times> int \<times> int \<times> int) list \<Rightarrow> error + board" where
  "boardAfter b [] = Inr b"
| "boardAfter b ((fr, fc, tr, tc) # ms) =
     (case makeMove_newBoard (initialSession\<lparr>board := b\<rparr>) fr fc tr tc of
        Inl e \<Rightarrow> Inl e
      | Inr b' \<Rightarrow> boardAfter b' ms)"

section \<open>Notions used to state the properties\<close>

subsection \<open>The path scan with a bound on its steps\<close>

text \<open>
  The loop of \<open>isPathClear\<close> allowed at most \<open>n\<close> passes through its body: \<open>None\<close> when
  the bound is used up before the loop ends.
\<close>

fun isPathClear_fuel ::
  "nat \<Rightarrow> board \<Rightarrow> int \<Rightarrow> int \<Rightarrow> int \<Rightarrow> int \<Rightarrow> int \<Rightarrow> int \<Rightarrow> (error + bool) option" where
  "isPathClear_fuel n b rowStep colStep toRow toCol currentRow currentCol =
     (if currentRow \<noteq> toRow \<or> currentCol \<noteq> toCol then
        (case n of
           0 \<Rightarrow> None
         | Suc m \<Rightarrow>
             (case getSq b currentRow currentCol of
                Inl e \<Rightarrow> Some (Inl e)
              | Inr (Some p) \<Rightarrow> Some (Inr False)
              | Inr None \<Rightarrow>
                  isPathClear_fuel m b rowStep colStep toRow toCol
                    (currentRow + rowStep) (currentCol + colStep)))
      else Some (Inr True))"

declare isPathClear_fuel.simps [simp del]

text \<open>
  \<open>isPathClear\<close> allowed to advance the scanned square at most \<open>n\<close> times, the first
  advance being the one from the source square.
\<close>

definition isPathClear_within :: "nat \<Rightarrow> session \<Rightarrow> int \<Rightarrow> int \<Rightarrow> int \<Rightarrow> int \<Rightarrow> bool res" where
  "isPathClear_within n s fromRow fromCol toRow toCol =
     (let rowStep = stepToward fromRow toRow;
          colStep = stepToward fromCol toCol
      in case n of
           0 \<Rightarrow> None
         | Suc m \<Rightarrow> isPathClear_fuel m (board s) rowStep colStep toRow toCol
                      (fromRow + rowStep) (fromCol + colStep))"

text \<open>Two squares share a row, a column or a diagonal.\<close>

definition aligned :: "int \<Rightarrow> int \<Rightarrow> int \<Rightarrow> int \<Rightarrow> bool" where
  "aligned fromRow fromCol toRow toCol \<longleftrightarrow>
     fromRow = toRow \<or> fromCol = toCol \<or> \<bar>toRow - fromRow\<bar> = \<bar>toCol - fromCol\<bar>"

definition distance :: "int \<Rightarrow> int \<Rightarrow> int \<Rightarrow> int \<Rightarrow> nat" where
  "distance fromRow fromCol toRow toCol = nat (max \<bar>toRow - fromRow\<bar> \<bar>toCol - fromCol\<bar>)"

subsection \<open>The parts of the legality check\<close>

text \<open>The checks \<open>isValidMove\<close> makes before it looks at the kind of piece.\<close>

definition preCheck :: "session \<Rightarrow> int \<Rightarrow> int \<Rightarrow> int \<Rightarrow> int \<Rightarrow> piece
    \<Rightarrow> (piece option \<Rightarrow> bool res) \<Rightarrow> bool res" where
  "preCheck s fromRow fromCol toRow toCol piece k =
     (if toRow < 0 \<or> toRow > 7 \<or> toCol < 0 \<or> toCol > 7 then ret False
      else if fromRow = toRow \<and> fromCol = toCol then ret False
      else bindR (liftE (getSq (board s) toRow toCol)) (\<lambda>target.
        if (case target of None \<Rightarrow> False | Some t \<Rightarrow> pcolor t = pcolor piece) then ret False
        else k target))"

text \<open>The pawn case of \<open>isValidMove\<close>.\<close>

definition pawnCheck :: "session \<Rightarrow> int \<Rightarrow> int \<Rightarrow> int \<Rightarrow> int \<Rightarrow> piece \<Rightarrow> piece option
    \<Rightarrow> bool res" where
  "pawnCheck s fromRow fromCol toRow toCol piece target =
     (let direction = (if pcolor piece = White then - 1 else 1);
          startRow = (if pcolor piece = White then 6 else 1);
          capture = ret (\<bar>toCol - fromCol\<bar> = 1 \<and> toRow = fromRow + direction
                         \<and> target \<noteq> None)
      in if toCol = fromCol \<and> target = None then
           if toRow = fromRow + direction then ret True
           else if fromRow = startRow \<and> toRow = fromRow + 2 * direction then
             bindR (liftE (getSq (board s) (fromRow + direction) fromCol)) (\<lambda>mid.
               if mid = None then ret True else capture)
           else capture
         else capture)"

subsection \<open>Boards and squares\<close>

text \<open>The elements of an array with their indices, counted from \<open>i\<close>.\<close>

fun indexed :: "int \<Rightarrow> 'a list \<Rightarrow> (int \<times> 'a) list" where
  "indexed i [] = []"
| "indexed i (x # xs) = (i, x) # indexed (i + 1) xs"

definition allSquares :: "(int \<times> int) list" where
  "allSquares = concat (map (\<lambda>r. map (\<lambda>c. (r, c)) [0..7]) [0..7])"

subsection \<open>Threatened pieces, as the specification words them\<close>

text \<open>
  A piece of colour \<open>col\<close> on square \<open>(r, c)\<close> of \<open>brd\<close> is threatened when at least one
  opposing piece of \<open>brd\<close> has a legal move onto \<open>(r, c)\<close>; every threatened piece is
  listed once.
\<close>

definition attacks :: "session \<Rightarrow> board \<Rightarrow> color \<Rightarrow> int \<Rightarrow> int \<Rightarrow> int \<times> int \<Rightarrow> bool" where
  "attacks s brd col r c a =
     (case getSq brd (fst a) (snd a) of
        Inr (Some attacker) \<Rightarrow>
          pcolor attacker \<noteq> col \<and> isValidMove s (fst a) (snd a) r c attacker = ret True
      | _ \<Rightarrow> False)"

definition threatened :: "session \<Rightarrow> board \<Rightarrow> color \<Rightarrow> int \<Rightarrow> int \<Rightarrow> bool" where
  "threatened s brd col r c = list_ex (attacks s brd col r c) allSquares"

definition threatenedSquare :: "session \<Rightarrow> board \<Rightarrow> color \<Rightarrow> int \<Rightarrow> int \<Rightarrow> piece option
    \<Rightarrow> (int \<times> int) list" where
  "threatenedSquare s brd col r c sq =
     (case sq of
        None \<Rightarrow> []
      | Some piece \<Rightarrow>
          if pcolor piece = col \<and> threatened s brd col r c then [(r, c)] else [])"

definition spec_threatenedPieces :: "session \<Rightarrow> board \<Rightarrow> color \<Rightarrow> (int \<times> int) list" where
  "spec_threatenedPieces s brd col =
     concat (map (\<lambda>(r, row).
       concat (map (\<lambda>(c, sq). threatenedSquare s brd col r c sq) (indexed 0 row)))
       (indexed 0 brd))"

subsection \<open>What the loops of the generator and of the threat scan collect\<close>

definition mkMove :: "int \<Rightarrow> int \<Rightarrow> int \<Rightarrow> int \<Rightarrow> piece \<Rightarrow> genMove" where
  "mkMove r c tr tc piece =
     \<lparr>gfrom = (r, c), gto = (tr, tc), gnotation = toAlgebraic r c tr tc piece\<rparr>"

text \<open>The accepted destinations of one piece, rows first and columns within a row.\<close>

definition movesOfPiece :: "session \<Rightarrow> int \<Rightarrow> int \<Rightarrow> piece \<Rightarrow> genMove list" where
  "movesOfPiece s r c piece =
     concat (map (\<lambda>tr. concat (map (\<lambda>tc.
       if isValidMove s r c tr tc piece = ret True then [mkMove r c tr tc piece] else [])
       [0..7])) [0..7])"

definition movesOfSquare :: "session \<Rightarrow> color \<Rightarrow> int \<Rightarrow> int \<Rightarrow> piece option \<Rightarrow> genMove list" where
  "movesOfSquare s col r c sq =
     (case sq of
        None \<Rightarrow> []
      | Some piece \<Rightarrow> if pcolor piece = col then movesOfPiece s r c piece else [])"

text \<open>
  The enumeration the specification describes: every square of \<open>brd\<close> in row-major
  order, and for each piece of the colour its accepted destinations in row-major order.
\<close>

definition spec_generateMoves :: "session \<Rightarrow> board \<Rightarrow> color \<Rightarrow> genMove list" where
  "spec_generateMoves s brd col =
     concat (map (\<lambda>(r, row).
       concat (map (\<lambda>(c, sq). movesOfSquare s col r c sq) (indexed 0 row)))
       (indexed 0 brd))"

definition rowMajorLess :: "int \<times> int \<Rightarrow> int \<times> int \<Rightarrow> bool" where
  "rowMajorLess a b \<longleftrightarrow> fst a < fst b \<or> (fst a = fst b \<and> snd a < snd b)"

text \<open>
  Move \<open>a\<close> comes before move \<open>b\<close>: its source comes first in row-major order, or the
  sources are the same and its destination comes first in row-major order.
\<close>

definition moveLess :: "genMove \<Rightarrow> genMove \<Rightarrow> bool" where
  "moveLess a b \<longleftrightarrow>
     rowMajorLess (gfrom a) (gfrom b)
     \<or> (gfrom a = gfrom b \<and> rowMajorLess (gto a) (gto b))"

text \<open>One entry for every attacker of the piece on \<open>(r, c)\<close>.\<close>

definition threatsOfPiece :: "session \<Rightarrow> board \<Rightarrow> color \<Rightarrow> int \<Rightarrow> int \<Rightarrow> piece \<Rightarrow> threat list" where
  "threatsOfPiece s brd col r c piece =
     concat (map (\<lambda>ar. concat (map (\<lambda>ac.
       if attacks s brd col r c (ar, ac) then [\<lparr>tpiece = piece, tposition = (r, c)\<rparr>] else [])
       [0..7])) [0..7])"

definition threatsOfSquare :: "session \<Rightarrow> board \<Rightarrow> color \<Rightarrow> int \<Rightarrow> int \<Rightarrow> piece option
    \<Rightarrow> threat list" where
  "threatsOfSquare s brd col r c sq =
     (case sq of
        None \<Rightarrow> []
      | Some piece \<Rightarrow> if pcolor piece = col then threatsOfPiece s brd col r c piece else [])"

definition spec_threatPairs :: "session \<Rightarrow> board \<Rightarrow> color \<Rightarrow> threat list" where
  "spec_threatPairs s brd col =
     concat (map (\<lambda>(r, row).
       concat (map (\<lambda>(c, sq). threatsOfSquare s brd col r c sq) (indexed 0 row)))
       (indexed 0 brd))"

section \<open>Outcomes and loops\<close>

lemma bindR_ret [simp]: "bindR (ret v) f = f v"
  by (simp add: bindR_def ret_def)

lemma ret_eq [simp]: "ret a = ret b \<longleftrightarrow> a = b"
  by (simp add: ret_def)

lemma getSq_Some_iff:
  "getSq b r c = Inr (Some p) \<longleftrightarrow>
     0 \<le> r \<and> r < int (length b) \<and> 0 \<le> c \<and> c < int (length (b ! nat r))
     \<and> b ! nat r ! nat c = Some p"
  by (auto simp: getSq_def jsIndex_def split: option.splits)

lemma getSq_row_in_range:
  "0 \<le> r \<Longrightarrow> r < int (length b) \<Longrightarrow> \<exists>sq. getSq b r c = Inr sq"
  by (simp add: getSq_def jsIndex_def split: option.splits)

lemma forUpto_append:
  assumes "\<And>i acc. lo \<le> i \<Longrightarrow> i < hi \<Longrightarrow> f i acc = ret (acc @ h i)"
  shows "forUpto f lo hi acc = ret (acc @ concat (map h [lo..hi - 1]))"
  using assms
proof (induction "nat (hi - lo)" arbitrary: lo acc)
  case 0
  then have "\<not> lo < hi" by simp
  then show ?case by (simp add: forUpto.simps [of f lo])
next
  case (Suc n)
  then have lt: "lo < hi" by linarith
  have n: "n = nat (hi - (lo + 1))" using Suc.hyps(2) by linarith
  have step: "f lo acc = ret (acc @ h lo)" using Suc.prems lt by simp
  have rest: "forUpto f (lo + 1) hi (acc @ h lo)
                = ret ((acc @ h lo) @ concat (map h [lo + 1..hi - 1]))"
    by (rule Suc.hyps(1) [OF n]) (simp add: Suc.prems)
  have up: "[lo..hi - 1] = lo # [lo + 1..hi - 1]"
    using lt by (simp add: upto_rec1)
  show ?case
    by (subst forUpto.simps) (simp add: lt step rest up)
qed

lemma forEachIdx_append:
  assumes "\<And>j x acc. (j, x) \<in> set (indexed i xs) \<Longrightarrow> f j x acc = ret (acc @ h j x)"
  shows "forEachIdx f i xs acc = ret (acc @ concat (map (\<lambda>(j, x). h j x) (indexed i xs)))"
  using assms
proof (induction xs arbitrary: i acc)
  case Nil
  then show ?case by simp
next
  case (Cons x xs)
  have "f i x acc = ret (acc @ h i x)" using Cons.prems by simp
  moreover have "forEachIdx f (i + 1) xs (acc @ h i x)
      = ret ((acc @ h i x) @ concat (map (\<lambda>(j, x). h j x) (indexed (i + 1) xs)))"
    by (rule Cons.IH) (simp add: Cons.prems)
  ultimately show ?case by simp
qed

lemma indexed_set:
  "(j, x) \<in> set (indexed i xs) \<longleftrightarrow> i \<le> j \<and> j < i + int (length xs) \<and> x = xs ! nat (j - i)"
proof (induction xs arbitrary: i j)
  case Nil
  then show ?case by simp
next
  case (Cons y ys)
  have "i < j \<Longrightarrow> nat (j - i) = Suc (nat (j - (i + 1)))" by linarith
  then show ?case
    by (cases "j = i") (auto simp: Cons.IH)
qed

lemma sorted_wrt_concat_map:
  assumes "sorted_wrt Q xs"
    and "\<And>x. x \<in> set xs \<Longrightarrow> sorted_wrt R (f x)"
    and "\<And>x y a b. Q x y \<Longrightarrow> a \<in> set (f x) \<Longrightarrow> b \<in> set (f y) \<Longrightarrow> R a b"
  shows "sorted_wrt R (concat (map f xs))"
  using assms by (induction xs) (auto simp: sorted_wrt_append)

lemma sorted_wrt_indexed: "sorted_wrt (\<lambda>x y. fst x < fst y) (indexed i xs)"
  by (induction xs arbitrary: i) (auto simp: indexed_set)

lemma sorted_wrt_upto: "sorted_wrt (<) [i..j]"
  by (simp add: strict_sorted_iff)

section \<open>Move classifier: thresholds\<close>

lemma moveDiff_white: "currentPlayer s = White \<Longrightarrow> moveDiff s p n = p - n"
  by (simp add: moveDiff_def)

lemma moveDiff_black: "currentPlayer s = Black \<Longrightarrow> moveDiff s p n = n - p"
  by (simp add: moveDiff_def)

lemma classifyMove_mistake:
  "1.5 < moveDiff s p n \<Longrightarrow> moveDiff s p n < 3 \<Longrightarrow>
     ctype (classifyMove s p n md rnd) = Mistake \<and> symbol (classifyMove s p n md rnd) = ''??''"
  by (simp add: classifyMove_def Let_def)

lemma classifyMove_brilliant:
  "moveDiff s p n < - 2 \<Longrightarrow>
     ctype (classifyMove s p n md rnd) = Brilliant \<and> symbol (classifyMove s p n md rnd) = ''!!''"
  by (simp add: classifyMove_def Let_def)

lemma classifyMove_best:
  "- 2 \<le> moveDiff s p n \<Longrightarrow> moveDiff s p n < - 0.5 \<Longrightarrow>
     ctype (classifyMove s p n md rnd) = Best \<and> symbol (classifyMove s p n md rnd) = ''!''"
  by (simp add: classifyMove_def Let_def)

lemma classifyMove_inaccuracy:
  "0.5 < moveDiff s p n \<Longrightarrow> moveDiff s p n < 1.5 \<Longrightarrow>
     ctype (classifyMove s p n md rnd) = Inaccuracy \<and> symbol (classifyMove s p n md rnd) = ''?''"
  by (simp add: classifyMove_def Let_def)

lemma classifyMove_good:
  "- 0.5 \<le> moveDiff s p n \<and> moveDiff s p n \<le> 0.5 \<or> moveDiff s p n = 1.5 \<or> moveDiff s p n = 3 \<Longrightarrow>
     ctype (classifyMove s p n md rnd) = Good \<and> symbol (classifyMove s p n md rnd) = []"
  by (auto simp: classifyMove_def Let_def)

lemma classifyMove_blunder:
  "3 < moveDiff s p n \<Longrightarrow>
     ctype (classifyMove s p n md rnd) = Blunder \<and> symbol (classifyMove s p n md rnd) = ''???''"
  by (simp add: classifyMove_def Let_def)

text \<open>
  C1 (as stated, refuted): white moves, the evaluation goes from 0.0 to -2.5. The claim
  says the result is the blunder tier with symbol "???"; the classifier does not return
  the blunder tier there.
\<close>

theorem C1_blunder_at_2_5_counterexample:
  "\<not> (moveDiff initialSession 0 (- 2.5) = 2.5
      \<and> ctype (classifyMove initialSession 0 (- 2.5) e2e4 0) = Blunder
      \<and> symbol (classifyMove initialSession 0 (- 2.5) e2e4 0) = ''???'')"
  by (simp add: classifyMove_def moveDiff_def initialSession_def Let_def)

text \<open>
  C1 (amended): for the classifier with mover white, previous evaluation 0.0 and new
  evaluation -2.5, the computed diff is 2.5 and the returned classification has tier
  mistake with symbol "??", whatever the rest of the session, the move record and the
  random draw are.
\<close>

theorem C1_mistake_at_2_5:
  "currentPlayer s = White \<Longrightarrow>
     moveDiff s 0 (- 2.5) = 2.5
     \<and> ctype (classifyMove s 0 (- 2.5) md rnd) = Mistake
     \<and> symbol (classifyMove s 0 (- 2.5) md rnd) = ''??''"
  by (simp add: classifyMove_def moveDiff_def Let_def)

theorem C1_mistake_at_2_5_witness:
  "currentPlayer initialSession = White
     \<and> moveDiff initialSession 0 (- 2.5) = 2.5
     \<and> ctype (classifyMove initialSession 0 (- 2.5) e2e4 0) = Mistake
     \<and> symbol (classifyMove initialSession 0 (- 2.5) e2e4 0) = ''??''"
proof -
  have w: "currentPlayer initialSession = White"
    by (simp add: initialSession_def)
  show ?thesis
    using w C1_mistake_at_2_5 [OF w, of e2e4 0] by simp
qed

text \<open>
  C2 (the code at the failing input): white moves and the evaluation drops from 3.0 to
  0.0, so the diff is exactly 3. The comparisons \<open>diff < 3\<close> and \<open>diff > 3\<close> both fail
  and the classifier returns its default, the good tier with the empty symbol, where the
  claim requires the blunder tier with symbol "???".
\<close>

theorem C2_diff_exactly_3_is_good:
  "moveDiff initialSession 3 0 = 3
     \<and> ctype (classifyMove initialSession 3 0 e2e4 rnd) = Good
     \<and> symbol (classifyMove initialSession 3 0 e2e4 rnd) = []
     \<and> ctype (classifyMove initialSession 3 0 e2e4 rnd) \<noteq> Blunder"
  by (simp add: classifyMove_def moveDiff_def initialSession_def Let_def)

section \<open>Session aggregator: accuracy and performance scores\<close>

text \<open>
  C3 (the code at the failing input): with an empty move history the aggregator divides
  0 by 0 without any guard; the accuracy is \<open>NaN\<close>, not a defined percentage.
\<close>

theorem C3_accuracy_of_empty_history_is_NaN:
  "moves initialSession = [] \<and> accuracy initialSession = NaN"
  by (simp add: accuracy_def initialSession_def countTier_def jsDiv_def jsTimes_def
      toFixed1_def Let_def)

lemma accuracy_no_moves: "moves s = [] \<Longrightarrow> accuracy s = NaN"
  by (simp add: accuracy_def countTier_def jsDiv_def jsTimes_def toFixed1_def Let_def)

lemma accuracy_some_moves:
  assumes "moves s \<noteq> []"
  shows "accuracy s =
           toFixed1 (Num (real_of_int (int (length (moves s)) - countTier Blunder (moves s)
                            - countTier Mistake (moves s))
                          / real_of_int (int (length (moves s))) * 100))"
  using assms by (simp add: accuracy_def jsDiv_def jsTimes_def Let_def)

text \<open>
  C4 (the code at the failing input): a game with the 30 minute allotment (1800 s) that
  ends with 1500 s left on white's clock. The time management score is computed against
  the constant 600 and comes out as 250: it is neither within [0,100] nor
  1500 / 1800 * 100.
\<close>

theorem C4_timeManagement_uses_600:
  "map_sum id (\<lambda>a. timeManagement (performance a))
     (generatePostGameAnalysis
        (initialSession\<lparr>timeControl := \<lparr>tc_white = 1500, tc_black = 0\<rparr>\<rparr>) rndPos rndEnd)
   = Inr 250
   \<and> (250::real) > 100 \<and> (250::real) \<noteq> 1500 / 1800 * 100"
  by (simp add: generatePostGameAnalysis_def initialSession_def countUndevelopedPieces_def
      initializeBoard_def mkRow_def setup0_def getSq_def jsIndex_def Let_def)


text \<open>
  With white's clock between 0 and 600 and the draws in \<open>[0, 1)\<close>, every score of the
  aggregator is a percentage, and the time management score is the remaining time
  relative to 600 seconds.
\<close>

lemma forSquares_count:
  assumes "\<And>r c. (r, c) \<in> set sqs \<Longrightarrow> 0 \<le> r \<and> r < int (length b)"
    and "\<And>n sq. f n sq = n \<or> f n sq = n + 1"
  shows "\<exists>m. forSquares f b sqs (n::int) = Inr m \<and> n \<le> m \<and> m \<le> n + int (length sqs)"
  using assms(1)
proof (induction sqs arbitrary: n)
  case Nil
  then show ?case by simp
next
  case (Cons a sqs)
  obtain r c where a: "a = (r, c)" by (cases a)
  from Cons.prems [of r c] a obtain sq where sq: "getSq b r c = Inr sq"
    using getSq_row_in_range [of r b c] by auto
  from Cons.IH [of "f n sq"] Cons.prems obtain m where
    m: "forSquares f b sqs (f n sq) = Inr m" "f n sq \<le> m" "m \<le> f n sq + int (length sqs)"
    by auto
  from assms(2) [of n sq] m show ?case
    by (auto simp: a sq)
qed

lemma countUndevelopedPieces_range:
  assumes "8 \<le> length b"
  shows "\<exists>m. countUndevelopedPieces b col = Inr m \<and> 0 \<le> m \<and> m \<le> 4"
proof -
  have "\<exists>m. forSquares (\<lambda>count sq. case sq of None \<Rightarrow> count
                              | Some p \<Rightarrow> if \<not> moved p then count + 1 else count)
        b [(if col = White then 7 else 0, 1), (if col = White then 7 else 0, 2),
           (if col = White then 7 else 0, 5), (if col = White then 7 else 0, 6)] (0::int) = Inr m
        \<and> 0 \<le> m \<and> m \<le> 0 + int (length [(if col = White then 7 else 0, 1::int),
           (if col = White then 7 else 0, 2), (if col = White then 7 else 0, 5),
           (if col = White then 7 else (0::int), 6)])"
    using assms by (intro forSquares_count) (auto split: option.splits)
  then show ?thesis
    by (simp add: countUndevelopedPieces_def Let_def)
qed

lemma scores_in_range_for_600:
  assumes b: "8 \<le> length (board s)"
    and r: "0 \<le> rndPos" "rndPos < 1" "0 \<le> rndEnd" "rndEnd < 1"
    and t: "0 \<le> tc_white (timeControl s)" "tc_white (timeControl s) \<le> 600"
  shows "\<exists>a. generatePostGameAnalysis s rndPos rndEnd = Inr a
           \<and> 0 \<le> tacticalAccuracy (performance a) \<and> tacticalAccuracy (performance a) \<le> 100
           \<and> 0 \<le> positionalAwareness (performance a) \<and> positionalAwareness (performance a) \<le> 100
           \<and> 0 \<le> endgameSkill (performance a) \<and> endgameSkill (performance a) \<le> 100
           \<and> 0 \<le> openingKnowledge (performance a) \<and> openingKnowledge (performance a) \<le> 100
           \<and> 0 \<le> timeManagement (performance a) \<and> timeManagement (performance a) \<le> 100
           \<and> timeManagement (performance a) = real_of_int (tc_white (timeControl s)) / 600 * 100"
proof -
  from countUndevelopedPieces_range [OF b] obtain m where
    m: "countUndevelopedPieces (board s) White = Inr m" "0 \<le> m" "m \<le> 4" by blast
  have c: "0 \<le> countTier Blunder (moves s)" by (simp add: countTier_def)
  from m c r t show ?thesis
    by (simp add: generatePostGameAnalysis_def Let_def)
qed


section \<open>Applying a move: what changes on the board\<close>

text \<open>
  C9: applying a move changes only the source and the destination square. For every
  board and every move (the source square holds a piece, the destination is a square of
  the board other than the source), the new board is built without an error, its source
  square is empty, its destination holds the moved piece with the moved flag set, and
  every other square reads as before.
\<close>

theorem C9_makeMove_changes_two_squares:
  assumes src: "getSq (board s) fromRow fromCol = Inr (Some p)"
    and tr: "0 \<le> toRow" "toRow < int (length (board s))"
    and tc: "0 \<le> toCol" "toCol < int (length (board s ! nat toRow))"
    and ne: "(fromRow, fromCol) \<noteq> (toRow, toCol)"
  shows "\<exists>b'. makeMove_newBoard s fromRow fromCol toRow toCol = Inr b'
           \<and> getSq b' fromRow fromCol = Inr None
           \<and> getSq b' toRow toCol = Inr (Some (p\<lparr>moved := True\<rparr>))
           \<and> (\<forall>r c. (r, c) \<noteq> (fromRow, fromCol) \<longrightarrow> (r, c) \<noteq> (toRow, toCol) \<longrightarrow>
                  getSq b' r c = getSq (board s) r c)"
proof -
  from src have fr: "0 \<le> fromRow" "fromRow < int (length (board s))"
    and fc: "0 \<le> fromCol" "fromCol < int (length (board s ! nat fromRow))"
    and at: "board s ! nat fromRow ! nat fromCol = Some p"
    by (simp_all add: getSq_Some_iff)
  show ?thesis
  proof (cases "fromRow = toRow")
    case True
    with ne have "fromCol \<noteq> toCol" by simp
    with True fr fc tr tc at show ?thesis
      apply (simp add: makeMove_newBoard_def getSq_def jsIndex_def setSq_def Let_def)
      apply (auto simp: nth_list_update nat_eq_iff split: option.splits)
      done
  next
    case False
    with fr fc tr tc at show ?thesis
      apply (simp add: makeMove_newBoard_def getSq_def jsIndex_def setSq_def Let_def)
      apply (auto simp: nth_list_update nat_eq_iff split: option.splits)
      done
  qed
qed

theorem C9_makeMove_changes_two_squares_witness:
  "\<exists>b'. makeMove_newBoard initialSession 6 4 4 4 = Inr b'
      \<and> getSq b' 6 4 = Inr None
      \<and> getSq b' 4 4 = Inr (Some \<lparr>ptype = Pawn, pcolor = White, moved = True\<rparr>)
      \<and> getSq b' 7 4 = getSq (board initialSession) 7 4"
proof -
  have src: "getSq (board initialSession) 6 4
               = Inr (Some \<lparr>ptype = Pawn, pcolor = White, moved = False\<rparr>)"
    by code_simp
  have "\<exists>b'. makeMove_newBoard initialSession 6 4 4 4 = Inr b'
           \<and> getSq b' 6 4 = Inr None
           \<and> getSq b' 4 4
               = Inr (Some (\<lparr>ptype = Pawn, pcolor = White, moved = False\<rparr>\<lparr>moved := True\<rparr>))
           \<and> (\<forall>r c. (r, c) \<noteq> (6, 4) \<longrightarrow> (r, c) \<noteq> (4, 4) \<longrightarrow>
                  getSq b' r c = getSq (board initialSession) r c)"
    by (rule C9_makeMove_changes_two_squares [OF src])
       (simp_all add: initialSession_def initializeBoard_def)
  then obtain b' where b': "makeMove_newBoard initialSession 6 4 4 4 = Inr b'"
    "getSq b' 6 4 = Inr None"
    "getSq b' 4 4 = Inr (Some \<lparr>ptype = Pawn, pcolor = White, moved = True\<rparr>)"
    "\<forall>r c. (r, c) \<noteq> (6, 4) \<longrightarrow> (r, c) \<noteq> (4, 4) \<longrightarrow>
       getSq b' r c = getSq (board initialSession) r c"
    by auto
  from b'(4) have "getSq b' 7 4 = getSq (board initialSession) 7 4"
    by simp
  with b'(1-3) show ?thesis by blast
qed

section \<open>The legality checker reads the board and nothing else\<close>

lemma isPathClear_board_only:
  "board s = board s' \<Longrightarrow> isPathClear s fr fc tr tc = isPathClear s' fr fc tr tc"
  by (simp add: isPathClear_def)

text \<open>
  C6: the legality checker is a function of the board, the two squares and the piece.
  The embedding of \<open>isValidMove\<close> and \<open>isPathClear\<close> returns an outcome and nothing else,
  as the source functions assign to no state cell and mutate neither the board nor the
  piece. Two sessions with the same board give the same outcome for the same squares and
  piece, whatever their other state cells hold.
\<close>

theorem C6_isValidMove_depends_on_board_only:
  assumes same: "board s = board s'"
  shows "isValidMove s fromRow fromCol toRow toCol piece
           = isValidMove s' fromRow fromCol toRow toCol piece"
  unfolding isValidMove_def isPathClear_def same by (rule refl)

theorem C6_isValidMove_depends_on_board_only_witness:
  "board initialSession
     = board (initialSession\<lparr>selected := Some (6, 4), currentPlayer := Black, moves := [e2e4],
                gameOver := True, gameMode := Local, engineEvaluation := 5\<rparr>)
   \<and> isValidMove initialSession 7 0 3 0 \<lparr>ptype = Rook, pcolor = White, moved = False\<rparr>
     = isValidMove
         (initialSession\<lparr>selected := Some (6, 4), currentPlayer := Black, moves := [e2e4],
            gameOver := True, gameMode := Local, engineEvaluation := 5\<rparr>)
         7 0 3 0 \<lparr>ptype = Rook, pcolor = White, moved = False\<rparr>"
proof -
  have b: "board initialSession
     = board (initialSession\<lparr>selected := Some (6, 4), currentPlayer := Black, moves := [e2e4],
                gameOver := True, gameMode := Local, engineEvaluation := 5\<rparr>)"
    by simp
  from b C6_isValidMove_depends_on_board_only [OF b] show ?thesis by blast
qed

section \<open>The legality check by kind of piece\<close>

lemma isValidMove_Knight:
  "ptype p = Knight \<Longrightarrow> isValidMove s fr fc tr tc p =
     preCheck s fr fc tr tc p (\<lambda>target.
       ret ((\<bar>tr - fr\<bar> = 2 \<and> \<bar>tc - fc\<bar> = 1) \<or> (\<bar>tr - fr\<bar> = 1 \<and> \<bar>tc - fc\<bar> = 2)))"
  by (simp add: isValidMove_def preCheck_def Let_def cong: if_cong)

lemma isValidMove_King:
  "ptype p = King \<Longrightarrow> isValidMove s fr fc tr tc p =
     preCheck s fr fc tr tc p (\<lambda>target. ret (\<bar>tr - fr\<bar> \<le> 1 \<and> \<bar>tc - fc\<bar> \<le> 1))"
  by (simp add: isValidMove_def preCheck_def Let_def cong: if_cong)

lemma isValidMove_Bishop:
  "ptype p = Bishop \<Longrightarrow> isValidMove s fr fc tr tc p =
     preCheck s fr fc tr tc p (\<lambda>target.
       if \<bar>tr - fr\<bar> \<noteq> \<bar>tc - fc\<bar> then ret False else isPathClear s fr fc tr tc)"
  by (simp add: isValidMove_def preCheck_def Let_def cong: if_cong)

lemma isValidMove_Rook:
  "ptype p = Rook \<Longrightarrow> isValidMove s fr fc tr tc p =
     preCheck s fr fc tr tc p (\<lambda>target.
       if fr \<noteq> tr \<and> fc \<noteq> tc then ret False else isPathClear s fr fc tr tc)"
  by (simp add: isValidMove_def preCheck_def Let_def cong: if_cong)

lemma isValidMove_Queen:
  "ptype p = Queen \<Longrightarrow> isValidMove s fr fc tr tc p =
     preCheck s fr fc tr tc p (\<lambda>target.
       if fr \<noteq> tr \<and> fc \<noteq> tc \<and> \<bar>tr - fr\<bar> \<noteq> \<bar>tc - fc\<bar> then ret False
       else isPathClear s fr fc tr tc)"
  by (simp add: isValidMove_def preCheck_def Let_def cong: if_cong)

lemma isValidMove_Pawn:
  "ptype p = Pawn \<Longrightarrow> isValidMove s fr fc tr tc p =
     preCheck s fr fc tr tc p (pawnCheck s fr fc tr tc p)"
  by (simp add: isValidMove_def preCheck_def pawnCheck_def Let_def cong: if_cong)

lemma isValidMove_preCheck:
  "\<exists>k. isValidMove s fr fc tr tc p = preCheck s fr fc tr tc p k"
  by (cases "ptype p")
     (blast intro: isValidMove_Pawn isValidMove_Knight isValidMove_Bishop isValidMove_Rook
        isValidMove_Queen isValidMove_King)+

section \<open>The path scan terminates\<close>

lemma fuel_sound:
  "isPathClear_fuel n b rs cs tr tc cr cc = Some r \<Longrightarrow>
     isPathClear_loop b rs cs tr tc cr cc = Some r"
proof (induction n arbitrary: cr cc)
  case 0
  then show ?case
    by (subst isPathClear_loop.simps) (simp add: isPathClear_fuel.simps split: if_splits)
next
  case (Suc n)
  from Suc.prems show ?case
    by (subst isPathClear_loop.simps)
       (auto simp: isPathClear_fuel.simps [of "Suc n"] split: if_splits sum.splits option.splits
             intro: Suc.IH)
qed

lemma fuel_enough:
  "tr = cr + int k * rs \<Longrightarrow> tc = cc + int k * cs \<Longrightarrow>
     \<exists>r. isPathClear_fuel k b rs cs tr tc cr cc = Some r"
proof (induction k arbitrary: cr cc)
  case 0
  then show ?case by (simp add: isPathClear_fuel.simps)
next
  case (Suc k)
  have "tr = (cr + rs) + int k * rs" "tc = (cc + cs) + int k * cs"
    using Suc.prems by (simp_all add: algebra_simps)
  from Suc.IH [OF this] show ?case
    by (subst isPathClear_fuel.simps) (auto split: sum.splits option.splits)
qed

lemma fuel_mono:
  "isPathClear_fuel n b rs cs tr tc cr cc = Some r \<Longrightarrow> n \<le> m \<Longrightarrow>
     isPathClear_fuel m b rs cs tr tc cr cc = Some r"
proof (induction n arbitrary: m cr cc)
  case 0
  then show ?case
    by (subst isPathClear_fuel.simps) (simp add: isPathClear_fuel.simps [of 0] split: if_splits)
next
  case (Suc n)
  from Suc.prems obtain m' where m: "m = Suc m'" "n \<le> m'"
    by (cases m) auto
  from Suc.prems(1) show ?case
    unfolding m
    by (subst isPathClear_fuel.simps)
       (auto simp: isPathClear_fuel.simps [of "Suc n"] split: if_splits sum.splits option.splits
             intro: Suc.IH [OF _ m(2)])
qed

lemma aligned_steps:
  assumes "aligned fr fc tr tc"
  shows "tr = fr + int (distance fr fc tr tc) * stepToward fr tr"
    and "tc = fc + int (distance fr fc tr tc) * stepToward fc tc"
  using assms by (auto simp: aligned_def distance_def stepToward_def max_def)

lemma within_sound:
  "isPathClear_within n s fr fc tr tc = Some r \<Longrightarrow> isPathClear s fr fc tr tc = Some r"
  by (auto simp: isPathClear_within_def isPathClear_def Let_def split: nat.splits
           intro: fuel_sound)

lemma within_distance:
  assumes al: "aligned fr fc tr tc" and ne: "(fr, fc) \<noteq> (tr, tc)"
  shows "\<exists>r. isPathClear_within (distance fr fc tr tc) s fr fc tr tc = Some r"
proof -
  let ?d = "distance fr fc tr tc"
  from ne have "?d \<noteq> 0" by (auto simp: distance_def max_def)
  then obtain k where k: "?d = Suc k" by (cases ?d) auto
  have "tr = (fr + stepToward fr tr) + int k * stepToward fr tr"
    "tc = (fc + stepToward fc tc) + int k * stepToward fc tc"
    using aligned_steps [OF al] k by (simp_all add: algebra_simps)
  from fuel_enough [OF this] show ?thesis
    by (simp add: isPathClear_within_def k Let_def)
qed

lemma within_mono:
  "isPathClear_within n s fr fc tr tc = Some r \<Longrightarrow> n \<le> m \<Longrightarrow>
     isPathClear_within m s fr fc tr tc = Some r"
  by (cases n; cases m) (auto simp: isPathClear_within_def Let_def intro: fuel_mono)

lemma isPathClear_terminates:
  assumes "aligned fr fc tr tc"
  shows "\<exists>r. isPathClear s fr fc tr tc = Some r"
proof (cases "(fr, fc) = (tr, tc)")
  case True
  then show ?thesis
    by (simp add: isPathClear_def stepToward_def isPathClear_loop.simps)
next
  case False
  from within_distance [OF assms False] within_sound show ?thesis by blast
qed

lemma preCheck_terminates:
  "(\<And>t. \<exists>r. k t = Some r) \<Longrightarrow> \<exists>r. preCheck s fr fc tr tc p k = Some r"
  by (simp add: preCheck_def ret_def bindR_def liftE_def split: sum.splits)

lemma pawnCheck_terminates: "\<exists>r. pawnCheck s fr fc tr tc p t = Some r"
  by (simp add: pawnCheck_def ret_def bindR_def liftE_def Let_def split: sum.splits)

text \<open>The legality check returns or throws for every input: it never loops forever.\<close>

lemma isValidMove_terminates: "\<exists>r. isValidMove s fr fc tr tc p = Some r"
proof (cases "ptype p")
  case Pawn
  then show ?thesis
    by (simp add: isValidMove_Pawn preCheck_terminates pawnCheck_terminates)
next
  case Knight
  then show ?thesis by (simp add: isValidMove_Knight preCheck_terminates ret_def)
next
  case Bishop
  then show ?thesis
    by (auto simp: isValidMove_Bishop ret_def aligned_def
             intro!: preCheck_terminates isPathClear_terminates)
next
  case Rook
  then show ?thesis
    by (auto simp: isValidMove_Rook ret_def aligned_def
             intro!: preCheck_terminates isPathClear_terminates)
next
  case Queen
  then show ?thesis
    by (auto simp: isValidMove_Queen ret_def aligned_def
             intro!: preCheck_terminates isPathClear_terminates)
next
  case King
  then show ?thesis by (simp add: isValidMove_King preCheck_terminates ret_def)
qed

text \<open>
  C10: for every pair of distinct squares of the 8 x 8 board that share a row, a column
  or a diagonal, and for every board the session may hold, the path scan returns, and it
  does so after advancing the scanned square at most 7 times.
\<close>

theorem C10_isPathClear_terminates_within_7:
  assumes "0 \<le> fromRow" "fromRow \<le> 7" "0 \<le> fromCol" "fromCol \<le> 7"
    and "0 \<le> toRow" "toRow \<le> 7" "0 \<le> toCol" "toCol \<le> 7"
    and "(fromRow, fromCol) \<noteq> (toRow, toCol)"
    and "fromRow = toRow \<or> fromCol = toCol \<or> \<bar>toRow - fromRow\<bar> = \<bar>toCol - fromCol\<bar>"
  shows "\<exists>r. isPathClear_within 7 s fromRow fromCol toRow toCol = Some r
            \<and> isPathClear s fromRow fromCol toRow toCol = Some r"
proof -
  have al: "aligned fromRow fromCol toRow toCol"
    using assms(10) by (simp add: aligned_def)
  from within_distance [OF al assms(9)] obtain r where
    r: "isPathClear_within (distance fromRow fromCol toRow toCol) s
          fromRow fromCol toRow toCol = Some r"
    by blast
  have "distance fromRow fromCol toRow toCol \<le> 7"
    using assms by (auto simp: distance_def)
  from within_mono [OF r this] within_sound show ?thesis by blast
qed

theorem C10_isPathClear_terminates_within_7_witness:
  "\<exists>r. isPathClear_within 7 (initialSession\<lparr>board := replicate 8 (replicate 8 None)\<rparr>) 7 0 0 7
          = Some r
      \<and> isPathClear (initialSession\<lparr>board := replicate 8 (replicate 8 None)\<rparr>) 7 0 0 7 = Some r"
  using C10_isPathClear_terminates_within_7
          [of 7 0 0 7 "initialSession\<lparr>board := replicate 8 (replicate 8 None)\<rparr>"]
  by simp

lemma seven_steps_are_needed:
  "isPathClear_within 6 (initialSession\<lparr>board := replicate 8 (replicate 8 None)\<rparr>) 7 0 0 7 = None
   \<and> isPathClear_within 7 (initialSession\<lparr>board := replicate 8 (replicate 8 None)\<rparr>) 7 0 0 7
       = ret True"
  by code_simp

section \<open>The legality check returns a truth value\<close>

text \<open>
  On a board of at least eight rows, for a source square in rows 0 to 7, neither the path
  scan nor the legality check throws.
\<close>

lemma fuel_returns:
  "tr = cr + int k * rs \<Longrightarrow> tc = cc + int k * cs \<Longrightarrow> rs \<in> {- 1, 0, 1} \<Longrightarrow>
   0 \<le> cr \<Longrightarrow> cr < int (length b) \<Longrightarrow> 0 \<le> tr \<Longrightarrow> tr < int (length b) \<Longrightarrow>
     \<exists>v. isPathClear_fuel k b rs cs tr tc cr cc = Some (Inr v)"
proof (induction k arbitrary: cr cc)
  case 0
  then show ?case by (auto simp: isPathClear_fuel.simps)
next
  case (Suc k)
  have eqs: "tr = (cr + rs) + int k * rs" "tc = (cc + cs) + int k * cs"
    using Suc.prems by (simp_all add: algebra_simps)
  have "0 \<le> int k" by simp
  then have rng: "0 \<le> cr + rs" "cr + rs < int (length b)"
    using Suc.prems(3-7) eqs(1) by (auto simp: algebra_simps)
  from getSq_row_in_range [OF Suc.prems(4,5)] obtain sq where sq: "getSq b cr cc = Inr sq"
    by blast
  from Suc.IH [OF eqs Suc.prems(3) rng Suc.prems(6,7)] sq show ?case
    by (subst isPathClear_fuel.simps) (auto split: option.splits)
qed

lemma isPathClear_returns:
  assumes al: "aligned fr fc tr tc"
    and rows: "0 \<le> fr" "fr < int (length (board s))" "0 \<le> tr" "tr < int (length (board s))"
  shows "\<exists>v. isPathClear s fr fc tr tc = ret v"
proof (cases "(fr, fc) = (tr, tc)")
  case True
  then show ?thesis
    by (auto simp: isPathClear_def stepToward_def isPathClear_loop.simps ret_def)
next
  case False
  let ?d = "distance fr fc tr tc"
  let ?rs = "stepToward fr tr" and ?cs = "stepToward fc tc"
  from False have "?d \<noteq> 0" by (auto simp: distance_def max_def)
  then obtain k where k: "?d = Suc k" by (cases ?d) auto
  have eqs: "tr = (fr + ?rs) + int k * ?rs" "tc = (fc + ?cs) + int k * ?cs"
    using aligned_steps [OF al] k by (simp_all add: algebra_simps)
  have st: "?rs \<in> {- 1, 0, 1}" by (simp add: stepToward_def)
  have rng: "0 \<le> fr + ?rs" "fr + ?rs < int (length (board s))"
    using rows by (auto simp: stepToward_def)
  from fuel_returns [OF eqs st rng rows(3,4)] obtain v where
    "isPathClear_fuel k (board s) ?rs ?cs tr tc (fr + ?rs) (fc + ?cs) = Some (Inr v)"
    by blast
  from fuel_sound [OF this] show ?thesis
    by (auto simp: isPathClear_def ret_def Let_def)
qed

lemma preCheck_returns:
  assumes "8 \<le> length (board s)"
    and "\<And>t. 0 \<le> tr \<Longrightarrow> tr \<le> 7 \<Longrightarrow> (fr, fc) \<noteq> (tr, tc) \<Longrightarrow> \<exists>v. k t = ret v"
  shows "\<exists>v. preCheck s fr fc tr tc p k = ret v"
proof -
  have "0 \<le> tr \<Longrightarrow> tr \<le> 7 \<Longrightarrow> \<exists>sq. getSq (board s) tr tc = Inr sq"
    using assms(1) by (intro getSq_row_in_range) auto
  with assms(2) show ?thesis
    by (fastforce simp: preCheck_def liftE_def bindR_def ret_def)
qed

lemma pawnCheck_returns:
  assumes "8 \<le> length (board s)"
  shows "\<exists>v. pawnCheck s fr fc tr tc p t = ret v"
proof -
  have "\<exists>sq. getSq (board s) 5 fc = Inr sq" "\<exists>sq. getSq (board s) 2 fc = Inr sq"
    using assms by (auto intro!: getSq_row_in_range)
  then show ?thesis
    by (auto simp: pawnCheck_def liftE_def bindR_def ret_def Let_def)
qed

lemma isValidMove_returns:
  assumes b: "8 \<le> length (board s)" and fr: "0 \<le> fr" "fr \<le> 7"
  shows "\<exists>v. isValidMove s fr fc tr tc p = ret v"
proof -
  have path: "aligned fr fc tr tc \<Longrightarrow> 0 \<le> tr \<Longrightarrow> tr \<le> 7 \<Longrightarrow>
      \<exists>v. isPathClear s fr fc tr tc = ret v"
    using b fr by (intro isPathClear_returns) auto
  have slide: "\<exists>v. (if c then ret False else isPathClear s fr fc tr tc) = ret v"
    if "\<not> c \<Longrightarrow> aligned fr fc tr tc" "0 \<le> tr" "tr \<le> 7" for c
    using that path by (cases c) auto
  show ?thesis
  proof (cases "ptype p")
    case Pawn
    then show ?thesis
      by (auto simp: isValidMove_Pawn intro!: preCheck_returns [OF b] pawnCheck_returns [OF b])
  next
    case Knight
    then show ?thesis by (auto simp: isValidMove_Knight intro!: preCheck_returns [OF b])
  next
    case Bishop
    show ?thesis
      unfolding isValidMove_Bishop [OF Bishop]
      by (rule preCheck_returns [OF b], rule slide) (auto simp: aligned_def)
  next
    case Rook
    show ?thesis
      unfolding isValidMove_Rook [OF Rook]
      by (rule preCheck_returns [OF b], rule slide) (auto simp: aligned_def)
  next
    case Queen
    show ?thesis
      unfolding isValidMove_Queen [OF Queen]
      by (rule preCheck_returns [OF b], rule slide) (auto simp: aligned_def)
  next
    case King
    then show ?thesis by (auto simp: isValidMove_King intro!: preCheck_returns [OF b])
  qed
qed

text \<open>
  An accepted move ends on a square of the 8 x 8 grid other than the source that, in the
  session's board, is empty or holds a piece of the other colour.
\<close>

lemma isValidMove_True_target:
  assumes "isValidMove s fr fc tr tc p = ret True"
  shows "0 \<le> tr \<and> tr \<le> 7 \<and> 0 \<le> tc \<and> tc \<le> 7 \<and> (fr, fc) \<noteq> (tr, tc)
         \<and> (\<exists>target. getSq (board s) tr tc = Inr target
               \<and> (case target of None \<Rightarrow> True | Some t \<Rightarrow> pcolor t \<noteq> pcolor p))"
proof -
  from isValidMove_preCheck obtain k where
    "isValidMove s fr fc tr tc p = preCheck s fr fc tr tc p k" by blast
  with assms have "preCheck s fr fc tr tc p k = ret True" by simp
  then show ?thesis
    by (auto simp: preCheck_def liftE_def bindR_def ret_def split: if_splits sum.splits option.splits)
qed

section \<open>The opening move e2-e4\<close>

text \<open>
  C5: on the initial board the white pawn move from (6,4) to (4,4) is accepted by the
  legality checker; on the resulting board the material balance is 0, the positional
  score is 0.3 and the evaluation the engine analysis returns is 0.03, whatever the
  random draw for the suggested move is.
\<close>

theorem C5_e2e4_legal_and_evaluation:
  "getSq (board initialSession) 6 4
       = Inr (Some \<lparr>ptype = Pawn, pcolor = White, moved = False\<rparr>)
   \<and> isValidMove initialSession 6 4 4 4 \<lparr>ptype = Pawn, pcolor = White, moved = False\<rparr>
       = ret True
   \<and> (case makeMove_newBoard initialSession 6 4 4 4 of
        Inl e \<Rightarrow> False
      | Inr b \<Rightarrow>
          calculateMaterialBalance b = 0 \<and> evaluatePosition b = Inr 0.3
          \<and> (case simulateStockfishAnalysis initialSession b rnd of
               Some (Inr (ev, s')) \<Rightarrow> ev = 0.03
             | _ \<Rightarrow> False))"
  by code_simp

section \<open>Move generation\<close>

text \<open>
  On a session board of at least eight rows and an argument board of at most eight rows,
  the generator returns the enumeration \<open>spec_generateMoves\<close>.
\<close>

lemma pushIfValid_append:
  assumes "8 \<le> length (board s)" "0 \<le> r" "r \<le> 7"
  shows "pushIfValid s r c piece tr tc acc
           = ret (acc @ (if isValidMove s r c tr tc piece = ret True
                         then [mkMove r c tr tc piece] else []))"
proof -
  from isValidMove_returns [OF assms] obtain v where
    v: "isValidMove s r c tr tc piece = ret v" by blast
  show ?thesis
    by (cases v) (simp_all add: pushIfValid_def v mkMove_def)
qed

lemma piece_loops:
  assumes "8 \<le> length (board s)" "0 \<le> r" "r \<le> 7"
  shows "forUpto (\<lambda>tr acc. forUpto (\<lambda>tc acc. pushIfValid s r c piece tr tc acc) 0 8 acc) 0 8 acc
           = ret (acc @ movesOfPiece s r c piece)"
proof -
  have inner: "forUpto (\<lambda>tc acc. pushIfValid s r c piece tr tc acc) 0 8 acc
      = ret (acc @ concat (map (\<lambda>tc.
           if isValidMove s r c tr tc piece = ret True then [mkMove r c tr tc piece] else [])
           [0..7]))" for tr acc
    using forUpto_append [where f = "\<lambda>tc acc. pushIfValid s r c piece tr tc acc" and lo = 0
        and hi = 8, OF pushIfValid_append [OF assms]]
    by simp
  show ?thesis
    using forUpto_append [where f = "\<lambda>tr acc. forUpto (\<lambda>tc acc. pushIfValid s r c piece tr tc acc) 0 8 acc"
        and lo = 0 and hi = 8, OF inner]
    by (simp add: movesOfPiece_def)
qed

lemma generate_eq:
  assumes b: "8 \<le> length (board s)" and l: "length brd \<le> 8"
  shows "generateAllPossibleMoves s brd col = ret (spec_generateMoves s brd col)"
proof -
  have sq: "(case sq of None \<Rightarrow> ret acc
             | Some piece \<Rightarrow>
                 if pcolor piece = col then
                   forUpto (\<lambda>tr acc. forUpto (\<lambda>tc acc. pushIfValid s r c piece tr tc acc) 0 8 acc)
                     0 8 acc
                 else ret acc)
            = ret (acc @ movesOfSquare s col r c sq)"
    if "0 \<le> r" "r \<le> 7" for r c sq and acc :: "genMove list"
    using piece_loops [OF b that]
    by (simp add: movesOfSquare_def split: option.splits)
  have row: "forEachIdx (\<lambda>c sq acc.
               case sq of None \<Rightarrow> ret acc
               | Some piece \<Rightarrow>
                   if pcolor piece = col then
                     forUpto (\<lambda>tr acc. forUpto (\<lambda>tc acc. pushIfValid s r c piece tr tc acc) 0 8 acc)
                       0 8 acc
                   else ret acc) 0 row acc
             = ret (acc @ concat (map (\<lambda>(c, sq). movesOfSquare s col r c sq) (indexed 0 row)))"
    if "(r, row) \<in> set (indexed 0 brd)" for r row and acc :: "genMove list"
  proof -
    from that l have "0 \<le> r" "r \<le> 7" by (auto simp: indexed_set)
    then show ?thesis
      by (intro forEachIdx_append sq)
  qed
  show ?thesis
    unfolding generateAllPossibleMoves_def spec_generateMoves_def
    using forEachIdx_append [where i = 0 and xs = brd and acc = "[]"
      and h = "\<lambda>r row. concat (map (\<lambda>(c, sq). movesOfSquare s col r c sq) (indexed 0 row))", OF row]
    by simp
qed

lemma movesOfPiece_mem:
  "m \<in> set (movesOfPiece s r c piece) \<longleftrightarrow>
     (\<exists>tr tc. 0 \<le> tr \<and> tr \<le> 7 \<and> 0 \<le> tc \<and> tc \<le> 7
        \<and> isValidMove s r c tr tc piece = ret True \<and> m = mkMove r c tr tc piece)"
  by (force simp: movesOfPiece_def)

lemma movesOfSquare_mem:
  "m \<in> set (movesOfSquare s col r c sq) \<longleftrightarrow>
     (\<exists>piece. sq = Some piece \<and> pcolor piece = col \<and> m \<in> set (movesOfPiece s r c piece))"
  by (auto simp: movesOfSquare_def split: option.splits)

lemma getSq_indexed:
  "getSq brd r c = Inr (Some piece) \<longleftrightarrow>
     (\<exists>row. (r, row) \<in> set (indexed 0 brd) \<and> (c, Some piece) \<in> set (indexed 0 row))"
  by (auto simp: getSq_Some_iff indexed_set)

lemma spec_generateMoves_mem:
  "m \<in> set (spec_generateMoves s brd col) \<longleftrightarrow>
     (\<exists>r c piece tr tc. getSq brd r c = Inr (Some piece) \<and> pcolor piece = col
        \<and> 0 \<le> tr \<and> tr \<le> 7 \<and> 0 \<le> tc \<and> tc \<le> 7
        \<and> isValidMove s r c tr tc piece = ret True \<and> m = mkMove r c tr tc piece)"
  unfolding getSq_indexed
  by (fastforce simp: spec_generateMoves_def movesOfSquare_mem movesOfPiece_mem)

text \<open>
  The enumeration is in row-major order of the sources and, for one source, in row-major
  order of the destinations; so is the output of the generator.
\<close>

lemma movesOfPiece_sorted: "sorted_wrt moveLess (movesOfPiece s r c piece)"
  unfolding movesOfPiece_def
  by (intro sorted_wrt_concat_map [where Q = "(<)"] sorted_wrt_upto)
     (auto simp: moveLess_def rowMajorLess_def mkMove_def split: if_splits)

lemma movesOfSquare_sorted: "sorted_wrt moveLess (movesOfSquare s col r c sq)"
  by (simp add: movesOfSquare_def movesOfPiece_sorted split: option.splits)

lemma movesOfSquare_from: "m \<in> set (movesOfSquare s col r c sq) \<Longrightarrow> gfrom m = (r, c)"
  by (auto simp: movesOfSquare_mem movesOfPiece_mem mkMove_def)

lemma spec_generateMoves_sorted: "sorted_wrt moveLess (spec_generateMoves s brd col)"
  unfolding spec_generateMoves_def
proof (intro sorted_wrt_concat_map [where Q = "\<lambda>x y. fst x < fst y"] sorted_wrt_indexed)
  fix x :: "int \<times> piece option list"
  show "sorted_wrt moveLess
          (case x of (r, row) \<Rightarrow> concat (map (\<lambda>(c, sq). movesOfSquare s col r c sq) (indexed 0 row)))"
    by (cases x, simp,
        intro sorted_wrt_concat_map [where Q = "\<lambda>x y. fst x < fst y"] sorted_wrt_indexed)
       (auto simp: movesOfSquare_sorted moveLess_def rowMajorLess_def dest!: movesOfSquare_from)
next
  fix x y :: "int \<times> piece option list" and a b
  assume "fst x < fst y"
    and "a \<in> set (case x of (r, row) \<Rightarrow>
            concat (map (\<lambda>(c, sq). movesOfSquare s col r c sq) (indexed 0 row)))"
    and "b \<in> set (case y of (r, row) \<Rightarrow>
            concat (map (\<lambda>(c, sq). movesOfSquare s col r c sq) (indexed 0 row)))"
  then show "moveLess a b"
    by (cases x; cases y) (auto simp: moveLess_def rowMajorLess_def dest!: movesOfSquare_from)
qed

lemma generate_sorted:
  assumes "8 \<le> length (board s)" "length brd \<le> 8"
  shows "\<exists>ms. generateAllPossibleMoves s brd col = ret ms \<and> sorted_wrt moveLess ms"
  using generate_eq [OF assms] spec_generateMoves_sorted by blast

text \<open>
  When the board passed to the generator is the board of the session, no generated move
  ends on a piece of the moving colour.
\<close>

lemma generate_no_own_destination:
  assumes "length (board s) = 8"
  shows "\<exists>ms. generateAllPossibleMoves s (board s) col = ret ms
           \<and> (\<forall>m \<in> set ms. \<exists>target. getSq (board s) (fst (gto m)) (snd (gto m)) = Inr target
                  \<and> (case target of None \<Rightarrow> True | Some t \<Rightarrow> pcolor t \<noteq> col))"
proof -
  have "generateAllPossibleMoves s (board s) col = ret (spec_generateMoves s (board s) col)"
    using assms by (intro generate_eq) simp_all
  moreover have "\<exists>target. getSq (board s) (fst (gto m)) (snd (gto m)) = Inr target
                  \<and> (case target of None \<Rightarrow> True | Some t \<Rightarrow> pcolor t \<noteq> col)"
    if "m \<in> set (spec_generateMoves s (board s) col)" for m
  proof -
    from that obtain r c piece tr tc where
      p: "pcolor piece = col" and v: "isValidMove s r c tr tc piece = ret True"
      and m: "m = mkMove r c tr tc piece"
      by (auto simp: spec_generateMoves_mem)
    from isValidMove_True_target [OF v] p m show ?thesis
      by (auto simp: mkMove_def)
  qed
  ultimately show ?thesis by blast
qed


text \<open>
  C7 (the code at the failing input): white plays the knight from (7,6) to (5,5) on the
  initial board. \<open>makeMove\<close> passes the new board to the engine analysis, which calls the
  generator with it while the session still holds the old board. The generator takes the
  pieces from the new board and \<open>isValidMove\<close> looks up the destination in the session's
  board: the pawn move from (6,5) to (5,5) is generated although (5,5) holds the white
  knight on the board that was passed.
\<close>

theorem C7_generated_move_onto_own_piece:
  "case makeMove_newBoard initialSession 7 6 5 5 of
     Inl e \<Rightarrow> False
   | Inr b \<Rightarrow>
       getSq b 5 5 = Inr (Some \<lparr>ptype = Knight, pcolor = White, moved = True\<rparr>)
       \<and> getSq b 6 5 = Inr (Some \<lparr>ptype = Pawn, pcolor = White, moved = False\<rparr>)
       \<and> (case generateAllPossibleMoves initialSession b White of
            Some (Inr ms) \<Rightarrow>
              \<lparr>gfrom = (6, 5), gto = (5, 5), gnotation = ''f2-f3''\<rparr> \<in> set ms
          | _ \<Rightarrow> False)"
  by code_simp

section \<open>Threat count of the tactical hint\<close>

text \<open>
  On boards of at least eight rows the threat scan returns one entry for every pair of a
  piece of the colour and an attacker of it.
\<close>

lemma pushIfAttacked_append:
  assumes "8 \<le> length (board s)" "8 \<le> length brd" "0 \<le> ar" "ar < 8"
  shows "pushIfAttacked s brd col r c piece ar ac acc
           = ret (acc @ (if attacks s brd col r c (ar, ac)
                         then [\<lparr>tpiece = piece, tposition = (r, c)\<rparr>] else []))"
proof -
  from assms obtain sq where sq: "getSq brd ar ac = Inr sq"
    using getSq_row_in_range [of ar brd ac] by auto
  show ?thesis
  proof (cases sq)
    case None
    with sq show ?thesis
      by (simp add: pushIfAttacked_def attacks_def liftE_def bindR_def ret_def)
  next
    case (Some attacker)
    from isValidMove_returns [OF assms(1,3), of ac r c attacker] assms(4) obtain v where
      v: "isValidMove s ar ac r c attacker = ret v" by auto
    from sq Some v show ?thesis
      by (cases v) (auto simp: pushIfAttacked_def attacks_def liftE_def bindR_def ret_def)
  qed
qed

lemma attacker_loops:
  assumes "8 \<le> length (board s)" "8 \<le> length brd"
  shows "forUpto (\<lambda>ar acc.
            forUpto (\<lambda>ac acc. pushIfAttacked s brd col r c piece ar ac acc) 0 8 acc) 0 8 acc
           = ret (acc @ threatsOfPiece s brd col r c piece)"
proof -
  have inner: "forUpto (\<lambda>ac acc. pushIfAttacked s brd col r c piece ar ac acc) 0 8 acc
      = ret (acc @ concat (map (\<lambda>ac.
           if attacks s brd col r c (ar, ac) then [\<lparr>tpiece = piece, tposition = (r, c)\<rparr>]
           else []) [0..7]))"
    if "0 \<le> ar" "ar < 8" for ar acc
    using forUpto_append [where f = "\<lambda>ac acc. pushIfAttacked s brd col r c piece ar ac acc"
        and lo = 0 and hi = 8, OF pushIfAttacked_append [OF assms that]]
    by simp
  show ?thesis
    using forUpto_append [where f = "\<lambda>ar acc.
            forUpto (\<lambda>ac acc. pushIfAttacked s brd col r c piece ar ac acc) 0 8 acc"
        and lo = 0 and hi = 8, OF inner]
    by (simp add: threatsOfPiece_def)
qed

lemma detectThreats_eq:
  assumes b: "8 \<le> length (board s)" and l: "8 \<le> length brd"
  shows "detectThreats s brd col = ret (spec_threatPairs s brd col)"
proof -
  have sq: "(case sq of None \<Rightarrow> ret acc
             | Some piece \<Rightarrow>
                 if pcolor piece = col then
                   forUpto (\<lambda>ar acc.
                     forUpto (\<lambda>ac acc. pushIfAttacked s brd col r c piece ar ac acc) 0 8 acc)
                     0 8 acc
                 else ret acc)
            = ret (acc @ threatsOfSquare s brd col r c sq)"
    for r c sq and acc :: "threat list"
    using attacker_loops [OF b l]
    by (simp add: threatsOfSquare_def split: option.splits)
  have row: "forEachIdx (\<lambda>c sq acc.
               case sq of None \<Rightarrow> ret acc
               | Some piece \<Rightarrow>
                   if pcolor piece = col then
                     forUpto (\<lambda>ar acc.
                       forUpto (\<lambda>ac acc. pushIfAttacked s brd col r c piece ar ac acc) 0 8 acc)
                       0 8 acc
                   else ret acc) 0 row acc
             = ret (acc @ concat (map (\<lambda>(c, sq). threatsOfSquare s brd col r c sq)
                                   (indexed 0 row)))"
    for r row and acc :: "threat list"
    by (intro forEachIdx_append sq)
  show ?thesis
    unfolding detectThreats_def spec_threatPairs_def
    using forEachIdx_append [where i = 0 and xs = brd and acc = "[]"
      and h = "\<lambda>r row. concat (map (\<lambda>(c, sq). threatsOfSquare s brd col r c sq) (indexed 0 row))",
      OF row]
    by simp
qed

text \<open>
  The squares listed by the threat scan are the squares of the threatened pieces, but a
  piece is listed once per attacker: the number of entries is at least, and not in
  general equal to, the number of threatened pieces.
\<close>

lemma set_allSquares: "set allSquares = {0..7} \<times> {0..7}"
  by (auto simp: allSquares_def)

lemma concat_map_Nil: "concat (map g xs) = [] \<longleftrightarrow> (\<forall>x \<in> set xs. g x = [])"
  by (induction xs) auto

lemma concat_map_if_Nil:
  "concat (map (\<lambda>x. if P x then [f x] else []) xs) = [] \<longleftrightarrow> (\<forall>x \<in> set xs. \<not> P x)"
  by (induction xs) auto

lemma threatsOfPiece_Nil:
  "threatsOfPiece s brd col r c piece = [] \<longleftrightarrow>
     (\<forall>ar \<in> {0..7}. \<forall>ac \<in> {0..7}. \<not> attacks s brd col r c (ar, ac))"
  unfolding threatsOfPiece_def concat_map_Nil concat_map_if_Nil by simp

lemma threatened_iff: "threatsOfPiece s brd col r c piece = [] \<longleftrightarrow> \<not> threatened s brd col r c"
  unfolding threatsOfPiece_Nil threatened_def list_ex_iff set_allSquares by blast

lemma threatsOfPiece_position:
  "t \<in> set (threatsOfPiece s brd col r c piece) \<Longrightarrow> tposition t = (r, c)"
  by (auto simp: threatsOfPiece_def split: if_splits)

lemma threatenedSquare_mem:
  "q \<in> set (threatenedSquare s brd col r c sq) \<longleftrightarrow>
     (\<exists>piece. sq = Some piece \<and> pcolor piece = col \<and> threatened s brd col r c \<and> q = (r, c))"
  by (auto simp: threatenedSquare_def split: option.splits)

lemma threatsOfSquare_mem:
  "t \<in> set (threatsOfSquare s brd col r c sq) \<longleftrightarrow>
     (\<exists>piece. sq = Some piece \<and> pcolor piece = col
        \<and> t \<in> set (threatsOfPiece s brd col r c piece))"
  by (auto simp: threatsOfSquare_def split: option.splits)

lemma threatenedSquare_le:
  "length (threatenedSquare s brd col r c sq) \<le> length (threatsOfSquare s brd col r c sq)"
proof (cases sq)
  case None
  then show ?thesis by (simp add: threatenedSquare_def)
next
  case (Some piece)
  show ?thesis
  proof (cases "pcolor piece = col \<and> threatened s brd col r c")
    case True
    then have "threatsOfPiece s brd col r c piece \<noteq> []"
      by (simp add: threatened_iff)
    then have "1 \<le> length (threatsOfPiece s brd col r c piece)"
      by (cases "threatsOfPiece s brd col r c piece") simp_all
    with True Some show ?thesis
      by (simp add: threatenedSquare_def threatsOfSquare_def)
  next
    case False
    with Some show ?thesis by (auto simp: threatenedSquare_def)
  qed
qed

lemma length_concat_map_le:
  "(\<And>x. x \<in> set xs \<Longrightarrow> length (f x) \<le> length (g x)) \<Longrightarrow>
     length (concat (map f xs)) \<le> length (concat (map g xs))"
  by (induction xs) (auto intro: add_mono)

lemma threatened_count_le:
  "length (spec_threatenedPieces s brd col) \<le> length (spec_threatPairs s brd col)"
  unfolding spec_threatenedPieces_def spec_threatPairs_def
proof (rule length_concat_map_le)
  fix x :: "int \<times> piece option list"
  obtain r row where x: "x = (r, row)" by (cases x)
  have "length (concat (map (\<lambda>(c, sq). threatenedSquare s brd col r c sq) (indexed 0 row)))
          \<le> length (concat (map (\<lambda>(c, sq). threatsOfSquare s brd col r c sq) (indexed 0 row)))"
  proof (rule length_concat_map_le)
    fix y :: "int \<times> piece option"
    obtain c sq where y: "y = (c, sq)" by (cases y)
    show "length (case y of (c, sq) \<Rightarrow> threatenedSquare s brd col r c sq)
            \<le> length (case y of (c, sq) \<Rightarrow> threatsOfSquare s brd col r c sq)"
      unfolding y prod.case by (rule threatenedSquare_le)
  qed
  then show "length (case x of (r, row) \<Rightarrow>
                concat (map (\<lambda>(c, sq). threatenedSquare s brd col r c sq) (indexed 0 row)))
          \<le> length (case x of (r, row) \<Rightarrow>
                concat (map (\<lambda>(c, sq). threatsOfSquare s brd col r c sq) (indexed 0 row)))"
    unfolding x prod.case .
qed

lemma spec_threatPairs_mem:
  "t \<in> set (spec_threatPairs s brd col) \<longleftrightarrow>
     (\<exists>r c piece. getSq brd r c = Inr (Some piece) \<and> pcolor piece = col
        \<and> t \<in> set (threatsOfPiece s brd col r c piece))"
  unfolding getSq_indexed
  by (fastforce simp: spec_threatPairs_def threatsOfSquare_mem)

lemma spec_threatenedPieces_mem:
  "q \<in> set (spec_threatenedPieces s brd col) \<longleftrightarrow>
     (\<exists>r c piece. getSq brd r c = Inr (Some piece) \<and> pcolor piece = col
        \<and> threatened s brd col r c \<and> q = (r, c))"
  unfolding getSq_indexed spec_threatenedPieces_def
  by (fastforce simp: threatenedSquare_mem)

lemma threatened_positions:
  "tposition ` set (spec_threatPairs s brd col) = set (spec_threatenedPieces s brd col)"
proof (intro set_eqI iffI)
  fix q
  assume "q \<in> tposition ` set (spec_threatPairs s brd col)"
  then obtain t r c piece where t: "q = tposition t"
    "getSq brd r c = Inr (Some piece)" "pcolor piece = col"
    "t \<in> set (threatsOfPiece s brd col r c piece)"
    by (auto simp: spec_threatPairs_mem)
  from t(4) have "threatsOfPiece s brd col r c piece \<noteq> []" by auto
  then have "threatened s brd col r c" by (simp add: threatened_iff)
  moreover from t(4) have "tposition t = (r, c)" by (rule threatsOfPiece_position)
  ultimately have "\<exists>r c piece. getSq brd r c = Inr (Some piece) \<and> pcolor piece = col
        \<and> threatened s brd col r c \<and> q = (r, c)"
    using t(1-3) by (intro exI conjI) simp_all
  then show "q \<in> set (spec_threatenedPieces s brd col)"
    by (simp only: spec_threatenedPieces_mem)
next
  fix q
  assume "q \<in> set (spec_threatenedPieces s brd col)"
  then obtain r c piece where q: "getSq brd r c = Inr (Some piece)" "pcolor piece = col"
    "threatened s brd col r c" "q = (r, c)"
    unfolding spec_threatenedPieces_mem by blast
  from q(3) have "threatsOfPiece s brd col r c piece \<noteq> []" by (simp add: threatened_iff)
  then obtain t where t: "t \<in> set (threatsOfPiece s brd col r c piece)"
    by (cases "threatsOfPiece s brd col r c piece") auto
  then have pos: "tposition t = q" using q(4) by (simp add: threatsOfPiece_position)
  have "\<exists>r c piece. getSq brd r c = Inr (Some piece) \<and> pcolor piece = col
          \<and> t \<in> set (threatsOfPiece s brd col r c piece)"
    using t q(1,2) by (intro exI conjI)
  then have "t \<in> set (spec_threatPairs s brd col)"
    by (simp only: spec_threatPairs_mem)
  with pos show "q \<in> tposition ` set (spec_threatPairs s brd col)"
    by blast
qed


text \<open>
  C8 (the code at the failing input): after 1. e4 d5 2. Nc3 Nf6 white plays a3. The white
  pawn on (4,4) is attacked by the black pawn on (3,3) and by the black knight on (2,5),
  and no other white piece is attacked. \<open>detectThreats\<close> lists the pawn once for each
  attacker, so the hint announces 2 pieces under attack where 1 piece is threatened.
\<close>

theorem C8_threat_counted_per_attacker:
  "case boardAfter initializeBoard [(6,4,4,4), (1,3,3,3), (7,1,5,2), (0,6,2,5)] of
     Inl e \<Rightarrow> False
   | Inr b4 \<Rightarrow>
      (case makeMove_newBoard (initialSession\<lparr>board := b4\<rparr>) 6 0 5 0 of
         Inl e \<Rightarrow> False
       | Inr b5 \<Rightarrow>
           detectThreats (initialSession\<lparr>board := b4\<rparr>) b5 White
             = ret [\<lparr>tpiece = \<lparr>ptype = Pawn, pcolor = White, moved = True\<rparr>,
                      tposition = (4, 4)\<rparr>,
                    \<lparr>tpiece = \<lparr>ptype = Pawn, pcolor = White, moved = True\<rparr>,
                      tposition = (4, 4)\<rparr>]
           \<and> spec_threatenedPieces (initialSession\<lparr>board := b4\<rparr>) b5 White = [(4, 4)]
           \<and> spec_threatenedPieces (initialSession\<lparr>board := b5\<rparr>) b5 White = [(4, 4)]
           \<and> (case updateLiveHints (initialSession\<lparr>board := b4\<rparr>) b5 of
                Some (Inr hs) \<Rightarrow>
                  \<lparr>htype = Tactical,
                   message = ''Alert: 2 pieces under attack! Defend or counter-attack.''\<rparr>
                    \<in> set hs
              | _ \<Rightarrow> False))"
  by code_simp

end
